theory Spec2Isabelle
  imports Complex_Main
begin

section \<open>Values, exceptions and outcomes\<close>

text \<open>
  The pipeline of \<^verbatim>\<open>fin_python_v2.py\<close> works on decoded JSON. A decoded value is one of
  Python's \<^verbatim>\<open>None\<close>, \<^verbatim>\<open>bool\<close>, \<^verbatim>\<open>int\<close>, \<^verbatim>\<open>float\<close>, \<^verbatim>\<open>str\<close>, \<^verbatim>\<open>list\<close> and \<^verbatim>\<open>dict\<close>
  (string keys, in insertion order). A finite float is kept by its exact value. A
  \<^verbatim>\<open>str\<close> is a list of characters; the field names, separators and digits the
  code looks for are ASCII.
\<close>

datatype pyval =
    PNone
  | PBool bool
  | PInt int
  | PFloat rat
  | PStr string
  | PList "pyval list"
  | PDict "(string \<times> pyval) list"

text \<open>
  The exceptions the code can meet. \<^verbatim>\<open>json.JSONDecodeError\<close> is a subclass of
  \<^verbatim>\<open>ValueError\<close>, so \<^verbatim>\<open>except ValueError\<close> catches both; all of them are subclasses
  of \<^verbatim>\<open>Exception\<close>. \<^verbatim>\<open>sys.exit(n)\<close> raises \<^verbatim>\<open>SystemExit\<close>, which is not an
  \<^verbatim>\<open>Exception\<close>: no handler of this program catches it, and the process ends with
  status \<open>n\<close>.
\<close>

datatype exc =
    ValueError string
  | JSONDecodeError
  | AttributeError
  | TypeError
  | IndexError
  | ZeroDivisionError
  | StatisticsError
  | DatabaseError
  | OtherError

fun is_ValueError :: "exc \<Rightarrow> bool" where
  "is_ValueError (ValueError m) = True"
| "is_ValueError JSONDecodeError = True"
| "is_ValueError e = False"

datatype 'a outcome =
    Return 'a
  | Exit nat
  | Raise exc

subsection \<open>The Python operations the validator uses\<close>

text \<open>Truthiness, as \<^verbatim>\<open>if data\<close> tests it.\<close>

fun py_truthy :: "pyval \<Rightarrow> bool" where
  "py_truthy PNone = False"
| "py_truthy (PBool b) = b"
| "py_truthy (PInt n) = (n \<noteq> 0)"
| "py_truthy (PFloat q) = (q \<noteq> 0)"
| "py_truthy (PStr s) = (s \<noteq> [])"
| "py_truthy (PList xs) = (xs \<noteq> [])"
| "py_truthy (PDict kvs) = (kvs \<noteq> [])"

text \<open>
  Iteration, as \<^verbatim>\<open>enumerate(data, start=1)\<close> does it: a list gives its elements, a
  dict its keys, a string its characters; anything else is not iterable.
\<close>

fun py_iter :: "pyval \<Rightarrow> exc + pyval list" where
  "py_iter (PList xs) = Inr xs"
| "py_iter (PDict kvs) = Inr (map (\<lambda>kv. PStr (fst kv)) kvs)"
| "py_iter (PStr s) = Inr (map (\<lambda>c. PStr [c]) s)"
| "py_iter v = Inl TypeError"

fun py_len :: "pyval \<Rightarrow> exc + nat" where
  "py_len (PList xs) = Inr (length xs)"
| "py_len (PDict kvs) = Inr (length kvs)"
| "py_len (PStr s) = Inr (length s)"
| "py_len v = Inl TypeError"

text \<open>\<^verbatim>\<open>needle in hay\<close> on strings: \<open>needle\<close> occurs in \<open>hay\<close> as a contiguous run.\<close>

fun is_prefix :: "string \<Rightarrow> string \<Rightarrow> bool" where
  "is_prefix [] ys = True"
| "is_prefix (x # xs) [] = False"
| "is_prefix (x # xs) (y # ys) = (x = y \<and> is_prefix xs ys)"

fun is_substring :: "string \<Rightarrow> string \<Rightarrow> bool" where
  "is_substring xs [] = (xs = [])"
| "is_substring xs (y # ys) = (is_prefix xs (y # ys) \<or> is_substring xs ys)"

text \<open>
  \<^verbatim>\<open>field in row\<close>: key membership on a dict, element equality on a list (a string
  equals only a string), substring on a string, \<^verbatim>\<open>TypeError\<close> on anything else.
\<close>

fun py_contains :: "pyval \<Rightarrow> string \<Rightarrow> exc + bool" where
  "py_contains (PDict kvs) k = Inr (k \<in> set (map fst kvs))"
| "py_contains (PList xs) k = Inr (PStr k \<in> set xs)"
| "py_contains (PStr s) k = Inr (is_substring k s)"
| "py_contains v k = Inl TypeError"

text \<open>\<^verbatim>\<open>d.get(k)\<close>: only a dict has the method; a missing key gives \<^verbatim>\<open>None\<close>.\<close>

fun py_get :: "pyval \<Rightarrow> string \<Rightarrow> exc + pyval" where
  "py_get (PDict kvs) k = Inr (case map_of kvs k of None \<Rightarrow> PNone | Some v \<Rightarrow> v)"
| "py_get v k = Inl AttributeError"

text \<open>\<^verbatim>\<open>d.values()\<close>: only a dict has the method.\<close>

fun py_values :: "pyval \<Rightarrow> exc + pyval list" where
  "py_values (PDict kvs) = Inr (map snd kvs)"
| "py_values v = Inl AttributeError"

text \<open>
  \<^verbatim>\<open>v == n\<close> for an integer \<open>n\<close>: \<^verbatim>\<open>True == 1\<close> and \<^verbatim>\<open>False == 0\<close> hold in Python, a
  float equals the integer of the same value, every other type is unequal.
\<close>

fun py_eq_int :: "pyval \<Rightarrow> int \<Rightarrow> bool" where
  "py_eq_int (PInt m) n = (m = n)"
| "py_eq_int (PBool b) n = ((if b then 1 else 0) = n)"
| "py_eq_int (PFloat q) n = (q = of_int n)"
| "py_eq_int v n = False"

text \<open>\<^verbatim>\<open>is_correct in (0, 1, None)\<close>.\<close>

definition in_0_1_None :: "pyval \<Rightarrow> bool" where
  "in_0_1_None v = (py_eq_int v 0 \<or> py_eq_int v 1 \<or> v = PNone)"

text \<open>\<^verbatim>\<open>isinstance(v, str)\<close>.\<close>

fun is_str :: "pyval \<Rightarrow> bool" where
  "is_str (PStr s) = True"
| "is_str v = False"

text \<open>\<^verbatim>\<open>s.replace("'", '"')\<close>.\<close>

definition replace_quotes :: "string \<Rightarrow> string" where
  "replace_quotes s = map (\<lambda>c. if c = CHR 0x27 then CHR 0x22 else c) s"

text \<open>A value known to be a string or \<^verbatim>\<open>None\<close>, as a nullable string.\<close>

fun str_or_None :: "pyval \<Rightarrow> string option" where
  "str_or_None (PStr s) = Some s"
| "str_or_None v = None"

section \<open>The validator\<close>

record canonical =
  user_id :: "string option"
  oauth_consumer_key :: "string option"
  lis_result_sourcedid :: "string option"
  lis_outcome_service_url :: "string option"
  is_correct :: pyval
  attempt_type :: string
  created_at :: string

definition required_fields :: "string list" where
  "required_fields =
     [''lti_user_id'', ''passback_params'', ''is_correct'', ''attempt_type'', ''created_at'']"

text \<open>
  The loop over \<^verbatim>\<open>required_fields\<close>: the first field that is not in the row raises
  \<^verbatim>\<open>ValueError\<close>; a row on which \<^verbatim>\<open>in\<close> is not defined raises \<^verbatim>\<open>TypeError\<close>.
\<close>

fun check_required :: "pyval \<Rightarrow> string list \<Rightarrow> exc + unit" where
  "check_required row [] = Inr ()"
| "check_required row (f # fs) =
     (case py_contains row f of
        Inl e \<Rightarrow> Inl e
      | Inr present \<Rightarrow>
          if \<not> present
          then Inl (ValueError (''Missing '' @ [CHR 0x27] @ f @ [CHR 0x27] @ '' field''))
          else check_required row fs)"

text \<open>
  The loop over \<^verbatim>\<open>passback_params_json.values()\<close>: every value is a string or
  \<^verbatim>\<open>None\<close>.
\<close>

fun check_values :: "pyval list \<Rightarrow> exc + unit" where
  "check_values [] = Inr ()"
| "check_values (v # vs) =
     (if v \<noteq> PNone \<and> \<not> is_str v
      then Inl (ValueError ''All values in 'passback_params' must be strings'')
      else check_values vs)"

text \<open>
  The \<^verbatim>\<open>passback_params\<close> step. \<^verbatim>\<open>json.loads\<close> belongs to the standard library and
  is a parameter \<open>loads\<close> of the model: it returns the decoded value or raises.
  The result is the triple of the three extracted sub-fields.
\<close>

definition check_passback ::
  "(string \<Rightarrow> exc + pyval) \<Rightarrow> pyval \<Rightarrow> exc + (string option \<times> string option \<times> string option)"
where
  "check_passback loads pp =
     (if pp \<noteq> PNone then
        (case pp of
           PStr s \<Rightarrow>
             (case loads (replace_quotes s) of
                Inl e \<Rightarrow> Inl e
              | Inr j \<Rightarrow>
                 (case py_values j of
                    Inl e \<Rightarrow> Inl e
                  | Inr vs \<Rightarrow>
                     (case check_values vs of
                        Inl e \<Rightarrow> Inl e
                      | Inr u \<Rightarrow>
                         (case py_get j ''oauth_consumer_key'' of
                            Inl e \<Rightarrow> Inl e
                          | Inr k \<Rightarrow>
                             (case py_get j ''lis_result_sourcedid'' of
                                Inl e \<Rightarrow> Inl e
                              | Inr sid \<Rightarrow>
                                 (case py_get j ''lis_outcome_service_url'' of
                                    Inl e \<Rightarrow> Inl e
                                  | Inr url \<Rightarrow>
                                      Inr (str_or_None k, str_or_None sid, str_or_None url)))))))
         | _ \<Rightarrow> Inl (ValueError (CHR 0x27 # ''passback_params' must be a string or None'')))
      else Inr (None, None, None))"

text \<open>
  The body of the \<^verbatim>\<open>try\<close> for one row (source lines 100 to 163): the canonical
  record, or the first exception raised.
\<close>

definition check_row :: "(string \<Rightarrow> exc + pyval) \<Rightarrow> pyval \<Rightarrow> exc + canonical" where
  "check_row loads row =
     (case check_required row required_fields of
        Inl e \<Rightarrow> Inl e
      | Inr u \<Rightarrow>
     (case py_get row ''lti_user_id'' of
        Inl e \<Rightarrow> Inl e
      | Inr lti_user_id \<Rightarrow>
     if lti_user_id \<noteq> PNone \<and> \<not> is_str lti_user_id
     then Inl (ValueError (CHR 0x27 # ''lti_user_id' must be a string or None''))
     else
     (case py_get row ''is_correct'' of
        Inl e \<Rightarrow> Inl e
      | Inr ic \<Rightarrow>
     if \<not> in_0_1_None ic
     then Inl (ValueError (CHR 0x27 # ''is_correct' must be 0, 1, or None''))
     else
     (case py_get row ''passback_params'' of
        Inl e \<Rightarrow> Inl e
      | Inr pp \<Rightarrow>
     (case check_passback loads pp of
        Inl e \<Rightarrow> Inl e
      | Inr (k, sid, url) \<Rightarrow>
     (case py_get row ''attempt_type'' of
        Inl e \<Rightarrow> Inl e
      | Inr atype \<Rightarrow>
     (case py_get row ''created_at'' of
        Inl e \<Rightarrow> Inl e
      | Inr cat \<Rightarrow>
     (case (atype, cat) of
        (PStr a, PStr c) \<Rightarrow>
          Inr \<lparr> user_id = str_or_None lti_user_id,
                oauth_consumer_key = k,
                lis_result_sourcedid = sid,
                lis_outcome_service_url = url,
                is_correct = ic,
                attempt_type = a,
                created_at = c \<rparr>
      | _ \<Rightarrow>
          Inl (ValueError
                 (CHR 0x27 # ''attempt_type' and 'created_at' must be a string''))))))))))"

text \<open>
  The \<^verbatim>\<open>for\<close> loop with its \<^verbatim>\<open>except ValueError\<close>. The state is the list of
  validated records and the error log (record number and exception of every
  rejection). A \<^verbatim>\<open>ValueError\<close> is logged and the loop goes on; any other exception
  leaves the loop and the function.
\<close>

fun validate_loop ::
  "(string \<Rightarrow> exc + pyval) \<Rightarrow> nat \<Rightarrow> pyval list \<Rightarrow> canonical list \<Rightarrow> (nat \<times> exc) list
     \<Rightarrow> (exc + canonical list) \<times> (nat \<times> exc) list"
where
  "validate_loop loads idx [] validated errs = (Inr validated, errs)"
| "validate_loop loads idx (row # rows) validated errs =
     (case check_row loads row of
        Inr c \<Rightarrow> validate_loop loads (Suc idx) rows (validated @ [c]) errs
      | Inl e \<Rightarrow>
          if is_ValueError e
          then validate_loop loads (Suc idx) rows validated (errs @ [(idx, e)])
          else (Inl e, errs))"

text \<open>
  \<^verbatim>\<open>validate_data\<close> (source lines 94 to 173): the outcome and the error log.
\<close>

definition validate_data ::
  "(string \<Rightarrow> exc + pyval) \<Rightarrow> pyval \<Rightarrow> canonical list outcome \<times> (nat \<times> exc) list"
where
  "validate_data loads data =
     (if \<not> py_truthy data then (Exit 1, [])
      else
        (case py_iter data of
           Inl e \<Rightarrow> (Raise e, [])
         | Inr rows \<Rightarrow>
            (case validate_loop loads 1 rows [] [] of
               (Inl e, errs) \<Rightarrow> (Raise e, errs)
             | (Inr validated, errs) \<Rightarrow>
                (case py_len data of
                   Inl e \<Rightarrow> (Raise e, errs)
                 | Inr n \<Rightarrow>
                     if length validated = n then (Return validated, errs)
                     else (Exit 1, errs)))))"

text \<open>
  The script's top level wraps every stage in \<^verbatim>\<open>try\<close> ... \<^verbatim>\<open>except Exception\<close>,
  which logs the error and calls \<^verbatim>\<open>sys.exit(1)\<close> (source lines 435 and 456 to 458).
\<close>

fun top_level :: "'a outcome \<Rightarrow> 'a outcome" where
  "top_level (Raise e) = Exit 1"
| "top_level r = r"

text \<open>
  The status the process ends with: \<open>0\<close> when the script runs to its end, the
  argument of \<^verbatim>\<open>sys.exit\<close>, and \<open>1\<close> for an exception nobody caught.
\<close>

fun exit_status :: "'a outcome \<Rightarrow> nat" where
  "exit_status (Return x) = 0"
| "exit_status (Exit n) = n"
| "exit_status (Raise e) = 1"

text \<open>
  The values of \<^verbatim>\<open>json.loads\<close> on the four documents used in the examples below:
  \<^verbatim>\<open>[]\<close> is the empty list, \<^verbatim>\<open>{"oauth_consumer_key": "k"}\<close> and \<^verbatim>\<open>{"n": 1}\<close> are
  dicts, and \<^verbatim>\<open>{\<close> is not a JSON document.
\<close>

definition loads_examples :: "string \<Rightarrow> exc + pyval" where
  "loads_examples s =
     (if s = ''[]'' then Inr (PList [])
      else if s = [CHR ''{'', CHR 0x22] @ ''oauth_consumer_key'' @ [CHR 0x22, CHR '':'', CHR '' '', CHR 0x22]
                  @ ''k'' @ [CHR 0x22, CHR ''}'']
        then Inr (PDict [(''oauth_consumer_key'', PStr ''k'')])
      else if s = [CHR ''{'', CHR 0x22, CHR ''n'', CHR 0x22, CHR '':'', CHR '' '', CHR ''1'', CHR ''}'']
        then Inr (PDict [(''n'', PInt 1)])
      else Inl JSONDecodeError)"

section \<open>The date-range gate of the extraction\<close>















section \<open>The relational store and the loader\<close>

text \<open>
  The store is PostgreSQL behind \<^verbatim>\<open>psycopg2\<close>, an external collaborator. The model
  keeps what the loader can observe: named tables of rows (the seven inserted
  columns; the generated key \<^verbatim>\<open>id\<close> is read by no statement), the rows committed
  so far, the view of the open transaction, and whether that transaction has been
  aborted by an error (the server then refuses every statement until the
  transaction ends). A statement fails when it names a table that does not exist,
  when it creates one that does, when the transaction is aborted, or when the driver
  or the server refuses it for another reason: the parameter \<open>fault\<close> gives the
  exception of such a refusal. A refusal by the server is a \<^verbatim>\<open>psycopg2.Error\<close>
  (\<open>DatabaseError\<close>) and aborts the transaction. The driver itself raises
  \<^verbatim>\<open>ValueError\<close>, before anything is sent, for a string parameter that holds a NUL
  character (\<open>nul_refusal\<close> below); that is not a \<^verbatim>\<open>psycopg2.Error\<close>. Column types
  and sizes are outside the model, and table names are taken to be lower-case
  identifiers, as the script's own \<^verbatim>\<open>ppf_2024_may\<close> is (PostgreSQL folds an
  unquoted name to lower case, which the model does not do).
\<close>

datatype stmt =
    SelectTables
  | SelectExists string
  | CreateTable string
  | SelectCount string "string option" string
  | InsertRow string canonical

record conn =
  committed :: "string \<Rightarrow> canonical list option"
  pending :: "string \<Rightarrow> canonical list option"
  aborted :: bool

text \<open>
  The exception a statement meets before it is carried out, if any: the refusal
  that \<open>fault\<close> gives, or the server's error in an aborted transaction.
\<close>

definition refusal :: "(stmt \<Rightarrow> exc option) \<Rightarrow> stmt \<Rightarrow> conn \<Rightarrow> exc option" where
  "refusal fault q c =
     (case fault q of
        Some e \<Rightarrow> Some e
      | None \<Rightarrow> if aborted c then Some DatabaseError else None)"

text \<open>A statement that raises; an error of the server aborts the transaction.\<close>

definition failed :: "exc \<Rightarrow> conn \<Rightarrow> (exc + 'a) \<times> conn" where
  "failed e c = (Inl e, if e = DatabaseError then c\<lparr>aborted := True\<rparr> else c)"

text \<open>
  The string parameters that a statement passes to the driver, and the driver's
  refusal of a NUL character in one of them.
\<close>

fun str_params :: "stmt \<Rightarrow> string list" where
  "str_params SelectTables = []"
| "str_params (SelectExists t) = [t]"
| "str_params (CreateTable t) = []"
| "str_params (SelectCount t uid ts) = (case uid of None \<Rightarrow> [] | Some u \<Rightarrow> [u]) @ [ts]"
| "str_params (InsertRow t r) =
     concat (map (\<lambda>v. case v of None \<Rightarrow> [] | Some s \<Rightarrow> [s])
               [user_id r, oauth_consumer_key r, lis_result_sourcedid r,
                lis_outcome_service_url r])
     @ [attempt_type r, created_at r]"

definition nul_refusal :: "stmt \<Rightarrow> exc option" where
  "nul_refusal q =
     (if \<exists>s\<in>set (str_params q). CHR 0x00 \<in> set s
      then Some (ValueError ''A string literal cannot contain NUL (0x00) characters.'')
      else None)"

text \<open>
  SQL compares in three-valued logic: a comparison with \<^verbatim>\<open>NULL\<close> is unknown
  (\<open>None\<close>), and \<^verbatim>\<open>WHERE\<close> keeps a row only when its condition is true.
\<close>

fun sql_eq :: "string option \<Rightarrow> string option \<Rightarrow> bool option" where
  "sql_eq (Some a) (Some b) = Some (a = b)"
| "sql_eq a b = None"

fun sql_or :: "bool option \<Rightarrow> bool option \<Rightarrow> bool option" where
  "sql_or (Some True) b = Some True"
| "sql_or a (Some True) = Some True"
| "sql_or (Some False) (Some False) = Some False"
| "sql_or a b = None"

fun sql_and :: "bool option \<Rightarrow> bool option \<Rightarrow> bool option" where
  "sql_and (Some False) b = Some False"
| "sql_and a (Some False) = Some False"
| "sql_and (Some True) (Some True) = Some True"
| "sql_and a b = None"

text \<open>
  The condition of the dedup query (source line 263),
  \<^verbatim>\<open>(user_id = %s or user_id is Null) AND created_at = %s\<close>, on a stored row, with
  the record's \<^verbatim>\<open>user_id\<close> and \<^verbatim>\<open>created_at\<close> as parameters (\<^verbatim>\<open>None\<close> is sent as
  \<^verbatim>\<open>NULL\<close>).
\<close>

definition dedup_where :: "string option \<Rightarrow> string \<Rightarrow> canonical \<Rightarrow> bool option" where
  "dedup_where uid ts r =
     sql_and (sql_or (sql_eq (user_id r) uid) (Some (user_id r = None)))
             (sql_eq (Some (created_at r)) (Some ts))"

definition dedup_count :: "string option \<Rightarrow> string \<Rightarrow> canonical list \<Rightarrow> nat" where
  "dedup_count uid ts rows = length (filter (\<lambda>r. dedup_where uid ts r = Some True) rows)"

subsection \<open>The statements\<close>

definition select_tables ::
  "(stmt \<Rightarrow> exc option) \<Rightarrow> conn \<Rightarrow> (exc + unit) \<times> conn"
where
  "select_tables fault c =
     (case refusal fault SelectTables c of
        Some e \<Rightarrow> failed e c
      | None \<Rightarrow> (Inr (), c))"

definition select_exists ::
  "(stmt \<Rightarrow> exc option) \<Rightarrow> string \<Rightarrow> conn \<Rightarrow> (exc + bool) \<times> conn"
where
  "select_exists fault t c =
     (case refusal fault (SelectExists t) c of
        Some e \<Rightarrow> failed e c
      | None \<Rightarrow> (Inr (pending c t \<noteq> None), c))"

definition create_table_stmt ::
  "(stmt \<Rightarrow> exc option) \<Rightarrow> string \<Rightarrow> conn \<Rightarrow> (exc + unit) \<times> conn"
where
  "create_table_stmt fault t c =
     (case refusal fault (CreateTable t) c of
        Some e \<Rightarrow> failed e c
      | None \<Rightarrow>
        (case pending c t of
           Some rows \<Rightarrow> failed DatabaseError c
         | None \<Rightarrow> (Inr (), c\<lparr>pending := (pending c)(t \<mapsto> [])\<rparr>)))"

definition select_count ::
  "(stmt \<Rightarrow> exc option) \<Rightarrow> string \<Rightarrow> string option \<Rightarrow> string \<Rightarrow> conn \<Rightarrow> (exc + nat) \<times> conn"
where
  "select_count fault t uid ts c =
     (case refusal fault (SelectCount t uid ts) c of
        Some e \<Rightarrow> failed e c
      | None \<Rightarrow>
        (case pending c t of
           None \<Rightarrow> failed DatabaseError c
         | Some rows \<Rightarrow> (Inr (dedup_count uid ts rows), c)))"

definition insert_row ::
  "(stmt \<Rightarrow> exc option) \<Rightarrow> string \<Rightarrow> canonical \<Rightarrow> conn \<Rightarrow> (exc + unit) \<times> conn"
where
  "insert_row fault t row c =
     (case refusal fault (InsertRow t row) c of
        Some e \<Rightarrow> failed e c
      | None \<Rightarrow>
        (case pending c t of
           None \<Rightarrow> failed DatabaseError c
         | Some rows \<Rightarrow> (Inr (), c\<lparr>pending := (pending c)(t \<mapsto> rows @ [row])\<rparr>)))"

text \<open>
  \<^verbatim>\<open>con.commit()\<close>: the transaction's view becomes the committed state; the commit
  of an aborted transaction is a rollback.
\<close>

definition commit :: "conn \<Rightarrow> conn" where
  "commit c =
     (if aborted c then c\<lparr>pending := committed c, aborted := False\<rparr>
      else c\<lparr>committed := pending c\<rparr>)"

subsection \<open>The methods of \<^verbatim>\<open>Database\<close>\<close>

text \<open>
  \<^verbatim>\<open>Database.__init__\<close> (source lines 182 to 191): \<open>connect\<close> is the result of
  \<^verbatim>\<open>psycopg2.connect\<close>; \<^verbatim>\<open>except Exception\<close> ends the process with status 1.
\<close>

definition db_init :: "exc + conn \<Rightarrow> conn outcome" where
  "db_init connect = (case connect of Inl e \<Rightarrow> Exit 1 | Inr c \<Rightarrow> Return c)"

text \<open>
  The handler \<^verbatim>\<open>except psycopg2.Error\<close> of the query methods: the error is logged
  and the method returns \<^verbatim>\<open>None\<close>; an exception of another class leaves the
  method.
\<close>

fun except_psycopg2 :: "exc \<Rightarrow> unit outcome" where
  "except_psycopg2 DatabaseError = Return ()"
| "except_psycopg2 e = Raise e"

text \<open>\<^verbatim>\<open>get_all_tables\<close> (source lines 201 to 214); the fetched names are only logged.\<close>

definition get_all_tables :: "(stmt \<Rightarrow> exc option) \<Rightarrow> conn \<Rightarrow> unit outcome \<times> conn" where
  "get_all_tables fault c =
     (case select_tables fault c of
        (Inl e, c1) \<Rightarrow> (except_psycopg2 e, c1)
      | (Inr u, c1) \<Rightarrow> (Return (), c1))"

text \<open>\<^verbatim>\<open>create_table\<close> (source lines 216 to 252).\<close>

definition create_table :: "(stmt \<Rightarrow> exc option) \<Rightarrow> string \<Rightarrow> conn \<Rightarrow> unit outcome \<times> conn" where
  "create_table fault table_name c =
     (case select_exists fault table_name c of
        (Inl e, c1) \<Rightarrow> (except_psycopg2 e, c1)
      | (Inr table_exists, c1) \<Rightarrow>
          if \<not> table_exists then
            (case create_table_stmt fault table_name c1 of
               (Inl e, c2) \<Rightarrow> (except_psycopg2 e, c2)
             | (Inr u, c2) \<Rightarrow> (Return (), commit c2))
          else (Return (), c1))"

text \<open>
  The loop of \<^verbatim>\<open>load_data_to_db\<close> (source lines 257 to 286), with the running
  \<^verbatim>\<open>skipped_count\<close>.
\<close>

fun load_loop ::
  "(stmt \<Rightarrow> exc option) \<Rightarrow> string \<Rightarrow> canonical list \<Rightarrow> nat \<Rightarrow> conn \<Rightarrow> (exc + nat) \<times> conn"
where
  "load_loop fault table_name [] skipped_count c = (Inr skipped_count, c)"
| "load_loop fault table_name (row # rows) skipped_count c =
     (case select_count fault table_name (user_id row) (created_at row) c of
        (Inl e, c1) \<Rightarrow> (Inl e, c1)
      | (Inr count, c1) \<Rightarrow>
          if count = 0 then
            (case insert_row fault table_name row c1 of
               (Inl e, c2) \<Rightarrow> (Inl e, c2)
             | (Inr u, c2) \<Rightarrow> load_loop fault table_name rows (skipped_count + count) c2)
          else load_loop fault table_name rows (skipped_count + count) c1)"

text \<open>\<^verbatim>\<open>load_data_to_db\<close> (source lines 254 to 295).\<close>

definition load_data_to_db ::
  "(stmt \<Rightarrow> exc option) \<Rightarrow> string \<Rightarrow> canonical list \<Rightarrow> conn \<Rightarrow> unit outcome \<times> conn"
where
  "load_data_to_db fault table_name vdata c =
     (case load_loop fault table_name vdata 0 c of
        (Inl e, c1) \<Rightarrow> (except_psycopg2 e, c1)
      | (Inr skipped_count, c1) \<Rightarrow> (Return (), commit c1))"

text \<open>
  The storage stage of the script (source lines 451 to 454), the last one of the
  run: connect, list the tables, create the table, load. Each call is made when the
  one before it returned.
\<close>

definition storage_stage ::
  "(stmt \<Rightarrow> exc option) \<Rightarrow> exc + conn \<Rightarrow> canonical list \<Rightarrow> unit outcome \<times> conn option"
where
  "storage_stage fault connect valid_data =
     (case db_init connect of
        Return c \<Rightarrow>
          (case get_all_tables fault c of
             (Return s, c1) \<Rightarrow>
               (case create_table fault ''ppf_2024_may'' c1 of
                  (Return cr, c2) \<Rightarrow>
                    (case load_data_to_db fault ''ppf_2024_may'' valid_data c2 of
                       (r, c3) \<Rightarrow> (top_level r, Some c3))
                | (Exit n, c2) \<Rightarrow> (Exit n, Some c2)
                | (Raise e, c2) \<Rightarrow> (Exit 1, Some c2))
           | (Exit n, c1) \<Rightarrow> (Exit n, Some c1)
           | (Raise e, c1) \<Rightarrow> (Exit 1, Some c1))
      | Exit n \<Rightarrow> (Exit n, None)
      | Raise e \<Rightarrow> (Exit 1, None))"


section \<open>The aggregator\<close>

text \<open>
  Python computes the percentage and the averages in binary floating point. The
  model computes them in exact rational arithmetic and rounds half to even, which
  is what the floating-point computation gives wherever the quotients are exactly
  representable, as at the inputs evaluated below. At a decimal tie that has no
  exact binary representation the two differ (a mean of 21/20 is rounded to 1.1 by
  Python and to 1 here), so no property below evaluates the rounding at such a
  value.
\<close>

record report =
  all_attempts :: nat
  run_attempts :: nat
  submits :: nat
  successfull_submits :: nat
  percent_of_successfull_submits :: rat
  unique_users :: nat
  max_activity_hour :: string
  avg_attempts_per_user :: rat
  avg_run_attempts_per_user :: rat
  avg_submits_per_user :: rat
  avg_successfull_submits_per_user :: rat

text \<open>\<^verbatim>\<open>s.split(sep)\<close> for a separator of one character.\<close>

fun py_split :: "char \<Rightarrow> string \<Rightarrow> string list" where
  "py_split sep [] = [[]]"
| "py_split sep (c # cs) =
     (if c = sep then [] # py_split sep cs
      else (case py_split sep cs of
              [] \<Rightarrow> [[c]]
            | p # ps \<Rightarrow> (c # p) # ps))"

text \<open>
  \<^verbatim>\<open>time.split(" ")[1].split(":")[0]\<close> (source line 335): an index out of range
  raises \<^verbatim>\<open>IndexError\<close>.
\<close>

definition hour_token :: "string \<Rightarrow> exc + string" where
  "hour_token time =
     (case py_split CHR '' '' time of
        p0 # p1 # ps \<Rightarrow>
          (case py_split CHR '':'' p1 of
             [] \<Rightarrow> Inl IndexError
           | h # hs \<Rightarrow> Inr h)
      | _ \<Rightarrow> Inl IndexError)"

text \<open>
  A dict as a list of pairs in insertion order: an assignment to a key that is
  present keeps its place, a new key goes to the end.
\<close>

fun dict_set :: "'k \<Rightarrow> 'v \<Rightarrow> ('k \<times> 'v) list \<Rightarrow> ('k \<times> 'v) list" where
  "dict_set k v [] = [(k, v)]"
| "dict_set k v (kv # kvs) =
     (if fst kv = k then (k, v) # kvs else kv # dict_set k v kvs)"

text \<open>The state of the loop over the rows (source lines 312 to 339).\<close>

record agg =
  cnt_all :: nat
  cnt_run :: nat
  cnt_submits :: nat
  cnt_success :: nat
  users_acts :: "(string \<times> (string \<times> pyval) list) list"
  time_d :: "(string \<times> nat) list"

definition agg_init :: agg where
  "agg_init = \<lparr> cnt_all = 0, cnt_run = 0, cnt_submits = 0, cnt_success = 0,
                users_acts = [], time_d = [] \<rparr>"

text \<open>One pass of the loop body.\<close>

definition agg_step :: "canonical \<Rightarrow> agg \<Rightarrow> exc + agg" where
  "agg_step row st =
     (case user_id row of
        None \<Rightarrow> Inr st
      | Some user \<Rightarrow>
          let st1 = st\<lparr> cnt_all := cnt_all st + 1,
                       cnt_run := cnt_run st + (if is_correct row = PNone then 1 else 0),
                       cnt_submits := cnt_submits st + (if is_correct row \<noteq> PNone then 1 else 0),
                       cnt_success := cnt_success st + (if py_eq_int (is_correct row) 1 then 1 else 0),
                       users_acts :=
                         dict_set user
                           ((case map_of (users_acts st) user of None \<Rightarrow> [] | Some acts \<Rightarrow> acts)
                              @ [(created_at row, is_correct row)])
                           (users_acts st) \<rparr>
          in (case hour_token (created_at row) of
                Inl e \<Rightarrow> Inl e
              | Inr hour \<Rightarrow>
                  (case map_of (time_d st1) hour of
                     None \<Rightarrow> Inr (st1\<lparr> time_d := dict_set hour 1 (time_d st1) \<rparr>)
                   | Some n \<Rightarrow> Inr (st1\<lparr> time_d := dict_set hour (n + 1) (time_d st1) \<rparr>))))"

fun agg_loop :: "canonical list \<Rightarrow> agg \<Rightarrow> exc + agg" where
  "agg_loop [] st = Inr st"
| "agg_loop (row # rows) st =
     (case agg_step row st of
        Inl e \<Rightarrow> Inl e
      | Inr st1 \<Rightarrow> agg_loop rows st1)"

text \<open>
  \<^verbatim>\<open>max(time_d, key=time_d.get)\<close>: the keys are visited in insertion order and the
  current best is replaced only by a key with a strictly greater count; an empty
  dict raises \<^verbatim>\<open>ValueError\<close>.
\<close>

fun max_loop :: "('a \<Rightarrow> nat) \<Rightarrow> 'a \<Rightarrow> 'a list \<Rightarrow> 'a" where
  "max_loop key best [] = best"
| "max_loop key best (x # xs) =
     (if key best < key x then max_loop key x xs else max_loop key best xs)"

definition dict_get0 :: "(string \<times> nat) list \<Rightarrow> string \<Rightarrow> nat" where
  "dict_get0 d k = (case map_of d k of None \<Rightarrow> 0 | Some n \<Rightarrow> n)"

definition py_max_key :: "(string \<times> nat) list \<Rightarrow> exc + string" where
  "py_max_key d =
     (case map fst d of
        [] \<Rightarrow> Inl (ValueError ''max() arg is an empty sequence'')
      | k # ks \<Rightarrow> Inr (max_loop (dict_get0 d) k ks))"

text \<open>\<^verbatim>\<open>statistics.mean\<close> of a list of counts; an empty list raises.\<close>

definition py_mean :: "nat list \<Rightarrow> exc + rat" where
  "py_mean xs =
     (if xs = [] then Inl StatisticsError
      else Inr (of_nat (sum_list xs) / of_nat (length xs)))"

text \<open>\<^verbatim>\<open>round(x, ndigits)\<close>: to the nearest multiple of \<open>10\<^sup>-\<^sup>n\<close>, a tie to the even one.\<close>

definition round_half_even :: "rat \<Rightarrow> int" where
  "round_half_even x =
     (let f = \<lfloor>x\<rfloor>; d = x - of_int f
      in if d < 1 / 2 then f
         else if 1 / 2 < d then f + 1
         else if even f then f else f + 1)"

definition py_round :: "rat \<Rightarrow> nat \<Rightarrow> rat" where
  "py_round x ndigits = of_int (round_half_even (x * 10 ^ ndigits)) / 10 ^ ndigits"

text \<open>The quotient of source lines 341 to 343; a zero divisor raises.\<close>

definition percent :: "nat \<Rightarrow> nat \<Rightarrow> exc + rat" where
  "percent succ subm =
     (if subm = 0 then Inl ZeroDivisionError
      else Inr (py_round (of_nat succ / of_nat subm * 100) 2))"

text \<open>The four counts of one user (source lines 350 to 358).\<close>

definition user_summary :: "(string \<times> pyval) list \<Rightarrow> nat \<times> nat \<times> nat \<times> nat" where
  "user_summary acts =
     (length acts,
      length (filter (\<lambda>act. snd act = PNone) acts),
      length (filter (\<lambda>act. snd act \<noteq> PNone) acts),
      length (filter (\<lambda>act. py_eq_int (snd act) 1) acts))"

text \<open>The body of the \<^verbatim>\<open>try\<close> of \<^verbatim>\<open>calc_for_gsheets\<close> (source lines 312 to 372).\<close>

definition calc_body :: "canonical list \<Rightarrow> exc + report" where
  "calc_body data =
     (case agg_loop data agg_init of
        Inl e \<Rightarrow> Inl e
      | Inr st \<Rightarrow>
     (case percent (cnt_success st) (cnt_submits st) of
        Inl e \<Rightarrow> Inl e
      | Inr pct \<Rightarrow>
     (case py_max_key (time_d st) of
        Inl e \<Rightarrow> Inl e
      | Inr max_hour \<Rightarrow>
     (let users_summary = map (\<lambda>ua. user_summary (snd ua)) (users_acts st) in
     (case py_mean (map (\<lambda>v. fst v) users_summary) of
        Inl e \<Rightarrow> Inl e
      | Inr avg_atts \<Rightarrow>
     (case py_mean (map (\<lambda>v. fst (snd v)) users_summary) of
        Inl e \<Rightarrow> Inl e
      | Inr avg_runs \<Rightarrow>
     (case py_mean (map (\<lambda>v. fst (snd (snd v))) users_summary) of
        Inl e \<Rightarrow> Inl e
      | Inr avg_submits \<Rightarrow>
     (case py_mean (map (\<lambda>v. snd (snd (snd v))) users_summary) of
        Inl e \<Rightarrow> Inl e
      | Inr avg_corr \<Rightarrow>
          Inr \<lparr> all_attempts = cnt_all st,
                run_attempts = cnt_run st,
                submits = cnt_submits st,
                successfull_submits = cnt_success st,
                percent_of_successfull_submits = pct,
                unique_users = length (users_acts st),
                max_activity_hour = max_hour,
                avg_attempts_per_user = py_round avg_atts 1,
                avg_run_attempts_per_user = py_round avg_runs 1,
                avg_submits_per_user = py_round avg_submits 1,
                avg_successfull_submits_per_user = py_round avg_corr 1 \<rparr>))))))))"

text \<open>
  \<^verbatim>\<open>calc_for_gsheets\<close>: \<^verbatim>\<open>except Exception\<close> logs the error and the function ends
  without a \<^verbatim>\<open>return\<close>, so the caller receives \<^verbatim>\<open>None\<close> instead of a report.
\<close>

definition calc_for_gsheets :: "canonical list \<Rightarrow> report option" where
  "calc_for_gsheets data = (case calc_body data of Inl e \<Rightarrow> None | Inr r \<Rightarrow> Some r)"

text \<open>
  The hour tokens of the identified-user records of a batch, in the order of the
  batch, and the place of the first occurrence of an hour among them.
\<close>

fun hour_tokens :: "canonical list \<Rightarrow> string list" where
  "hour_tokens [] = []"
| "hour_tokens (row # rows) =
     (if user_id row = None then hour_tokens rows
      else (case hour_token (created_at row) of
              Inl e \<Rightarrow> hour_tokens rows
            | Inr h \<Rightarrow> h # hour_tokens rows))"

section \<open>Auxiliary notions and example inputs\<close>

text \<open>The canonical records of the rows that pass every check, in the order of the batch.\<close>

fun accepted_of :: "(string \<Rightarrow> exc + pyval) \<Rightarrow> pyval list \<Rightarrow> canonical list" where
  "accepted_of loads [] = []"
| "accepted_of loads (row # rows) =
     (case check_row loads row of
        Inl e \<Rightarrow> accepted_of loads rows
      | Inr c \<Rightarrow> c # accepted_of loads rows)"

text \<open>Raw records: a valid one, one with \<^verbatim>\<open>is_correct = 2\<close>, and one with a given
  \<^verbatim>\<open>passback_params\<close> string.\<close>

definition row_ok :: pyval where
  "row_ok = PDict [(''lti_user_id'', PStr ''u1''), (''passback_params'', PNone),
                   (''is_correct'', PInt 1), (''attempt_type'', PStr ''submit''),
                   (''created_at'', PStr ''2024-05-01 10:30:00'')]"

definition row_is_correct_2 :: pyval where
  "row_is_correct_2 =
     PDict [(''lti_user_id'', PStr ''u2''), (''passback_params'', PNone),
            (''is_correct'', PInt 2), (''attempt_type'', PStr ''submit''),
            (''created_at'', PStr ''2024-05-01 11:00:00'')]"

definition row_passback :: "string \<Rightarrow> pyval" where
  "row_passback pp =
     PDict [(''lti_user_id'', PStr ''u1''), (''passback_params'', PStr pp),
            (''is_correct'', PInt 1), (''attempt_type'', PStr ''submit''),
            (''created_at'', PStr ''2024-05-01 10:30:00'')]"


text \<open>What the loop of the loader does to the rows of the target table.\<close>

fun load_rows :: "canonical list \<Rightarrow> canonical list \<Rightarrow> canonical list" where
  "load_rows [] rows = rows"
| "load_rows (row # vdata) rows =
     (if dedup_count (user_id row) (created_at row) rows = 0
      then load_rows vdata (rows @ [row])
      else load_rows vdata rows)"

text \<open>A driver and server that refuse no statement.\<close>

definition no_fault :: "stmt \<Rightarrow> exc option" where
  "no_fault q = None"

text \<open>Two canonical records with the same \<^verbatim>\<open>created_at\<close>, one of user \<^verbatim>\<open>u1\<close> and one with no
  user; a connection whose table \<^verbatim>\<open>t\<close> holds the first; a connection to an empty
  database; and a server that refuses to create the table of the script.\<close>

definition stored_u1 :: canonical where
  "stored_u1 = \<lparr> user_id = Some ''u1'', oauth_consumer_key = None, lis_result_sourcedid = None,
      lis_outcome_service_url = None, is_correct = PInt 1, attempt_type = ''submit'',
      created_at = ''2024-05-01 10:00:00'' \<rparr>"

definition rec_null :: canonical where
  "rec_null = \<lparr> user_id = None, oauth_consumer_key = None, lis_result_sourcedid = None,
      lis_outcome_service_url = None, is_correct = PNone, attempt_type = ''run'',
      created_at = ''2024-05-01 10:00:00'' \<rparr>"

definition conn_u1 :: conn where
  "conn_u1 = \<lparr> committed = [''t'' \<mapsto> [stored_u1]], pending = [''t'' \<mapsto> [stored_u1]],
               aborted = False \<rparr>"

definition conn_empty :: conn where
  "conn_empty = \<lparr> committed = Map.empty, pending = Map.empty, aborted = False \<rparr>"

definition fault_create :: "stmt \<Rightarrow> exc option" where
  "fault_create q = (if q = CreateTable ''ppf_2024_may'' then Some DatabaseError else None)"

text \<open>A canonical record whose \<^verbatim>\<open>created_at\<close> holds a NUL character, and a connection
  whose table \<^verbatim>\<open>ppf_2024_may\<close> exists and is empty.\<close>

definition rec_nul :: canonical where
  "rec_nul = \<lparr> user_id = Some ''u1'', oauth_consumer_key = None, lis_result_sourcedid = None,
      lis_outcome_service_url = None, is_correct = PInt 1, attempt_type = ''submit'',
      created_at = [CHR 0x00] \<rparr>"

definition conn_may :: conn where
  "conn_may = \<lparr> committed = [''ppf_2024_may'' \<mapsto> []], pending = [''ppf_2024_may'' \<mapsto> []],
                aborted = False \<rparr>"

text \<open>The tally of the hours: what the loop does to \<^verbatim>\<open>time_d\<close> for one hour token and
  for a list of them.\<close>

definition bump :: "string \<Rightarrow> (string \<times> nat) list \<Rightarrow> (string \<times> nat) list" where
  "bump hour d =
     (case map_of d hour of
        None \<Rightarrow> dict_set hour 1 d
      | Some n \<Rightarrow> dict_set hour (n + 1) d)"

fun tally :: "string list \<Rightarrow> (string \<times> nat) list \<Rightarrow> (string \<times> nat) list" where
  "tally [] d = d"
| "tally (h # hs) d = tally hs (bump h d)"

text \<open>Canonical records for the examples of the aggregator: an attempt of a user,
  a batch of two attempts in two different hours, and a submit of no user.\<close>

definition attempt :: "string \<Rightarrow> pyval \<Rightarrow> string \<Rightarrow> canonical" where
  "attempt u ic ts = \<lparr> user_id = Some u, oauth_consumer_key = None, lis_result_sourcedid = None,
      lis_outcome_service_url = None, is_correct = ic, attempt_type = ''submit'',
      created_at = ts \<rparr>"

definition data_tie :: "canonical list" where
  "data_tie = [attempt ''u1'' (PInt 1) ''2024-05-01 11:00:00'',
               attempt ''u2'' (PInt 0) ''2024-05-01 10:00:00'']"

definition rec_anonymous :: canonical where
  "rec_anonymous = \<lparr> user_id = None, oauth_consumer_key = None, lis_result_sourcedid = None,
      lis_outcome_service_url = None, is_correct = PInt 1, attempt_type = ''submit'',
      created_at = ''2024-05-01 10:00:00'' \<rparr>"

text \<open>The \<^verbatim>\<open>passback_params\<close> string \<^verbatim>\<open>{'n': 1}\<close>, whose decoded mapping holds a number.\<close>

definition quoted_n_1 :: string where
  "quoted_n_1 = [CHR ''{'', CHR 0x27, CHR ''n'', CHR 0x27, CHR '':'', CHR '' '', CHR ''1'', CHR ''}'']"

section \<open>Properties of the validator\<close>

lemma length_accepted_of: "length (accepted_of L rows) \<le> length rows"
  by (induction rows) (auto split: sum.splits)

lemma accepted_of_full:
  "length (accepted_of L rows) = length rows
     \<longleftrightarrow> (\<forall>r\<in>set rows. \<exists>c. check_row L r = Inr c)"
proof (induction rows)
  case Nil
  then show ?case by simp
next
  case (Cons r rows)
  have le: "length (accepted_of L rows) \<le> length rows" by (rule length_accepted_of)
  show ?case
  proof (cases "check_row L r")
    case (Inl e)
    with le show ?thesis by auto
  next
    case (Inr c)
    with Cons show ?thesis by auto
  qed
qed

lemma accepted_of_map:
  "(\<forall>r\<in>set rows. \<exists>c. check_row L r = Inr c)
     \<Longrightarrow> map Inr (accepted_of L rows) = map (check_row L) rows"
  by (induction rows) auto

text \<open>When every exception of the batch is a \<^verbatim>\<open>ValueError\<close>, the loop runs to the end
  and keeps exactly the accepted records.\<close>

lemma validate_loop_caught:
  "(\<forall>r\<in>set rows. \<forall>e. check_row L r = Inl e \<longrightarrow> is_ValueError e) \<Longrightarrow>
   fst (validate_loop L idx rows acc errs) = Inr (acc @ accepted_of L rows)"
  by (induction rows arbitrary: idx acc errs) (auto split: sum.splits)

text \<open>Another exception leaves the loop.\<close>

lemma validate_loop_uncaught:
  "(\<exists>r\<in>set rows. \<exists>e. check_row L r = Inl e \<and> \<not> is_ValueError e) \<Longrightarrow>
   \<exists>e. fst (validate_loop L idx rows acc errs) = Inl e"
proof (induction rows arbitrary: idx acc errs)
  case Nil
  then show ?case by simp
next
  case (Cons a rows)
  show ?case
  proof (cases "check_row L a")
    case (Inr c)
    with Cons.prems
    have "\<exists>r\<in>set rows. \<exists>e. check_row L r = Inl e \<and> \<not> is_ValueError e" by auto
    from Cons.IH [OF this] Inr show ?thesis by simp
  next
    case (Inl x)
    show ?thesis
    proof (cases "is_ValueError x")
      case True
      with Inl Cons.prems
      have "\<exists>r\<in>set rows. \<exists>e. check_row L r = Inl e \<and> \<not> is_ValueError e" by auto
      from Cons.IH [OF this] Inl True show ?thesis by simp
    next
      case False
      with Inl show ?thesis by simp
    qed
  qed
qed

lemma validate_data_list:
  "rows \<noteq> [] \<Longrightarrow> fst (validate_data L (PList rows)) =
     (case fst (validate_loop L 1 rows [] []) of
        Inl e \<Rightarrow> Raise e
      | Inr vs \<Rightarrow> if length vs = length rows then Return vs else Exit 1)"
  by (auto simp: validate_data_def split: prod.splits sum.splits)

lemma check_row_ok:
  "check_row L row_ok =
     Inr \<lparr> user_id = Some ''u1'', oauth_consumer_key = None, lis_result_sourcedid = None,
           lis_outcome_service_url = None, is_correct = PInt 1, attempt_type = ''submit'',
           created_at = ''2024-05-01 10:30:00'' \<rparr>"
  by (simp add: check_row_def row_ok_def required_fields_def in_0_1_None_def
      check_passback_def)

lemma check_row_is_correct_2:
  "check_row L row_is_correct_2 = Inl (ValueError (CHR 0x27 # ''is_correct' must be 0, 1, or None''))"
  by (simp add: check_row_def row_is_correct_2_def required_fields_def in_0_1_None_def
      check_passback_def)

text \<open>
  Claim C1. For a non-empty batch (a list of rows), \<^verbatim>\<open>validate_data\<close> returns a list
  exactly when every row passes every check, and the list it returns holds the
  canonical record of every row, in order, so it is never shorter than the batch.
  If some row fails a check, the process ends with status 1: \<^verbatim>\<open>validate_data\<close>
  itself calls \<^verbatim>\<open>sys.exit(1)\<close> after the loop when the failures were all
  \<^verbatim>\<open>ValueError\<close>s, and an exception of another kind leaves the function and is
  turned into \<^verbatim>\<open>sys.exit(1)\<close> by the handler of the script's top level.
\<close>

theorem validate_data_all_or_nothing:
  assumes ne: "rows \<noteq> []"
  shows "((\<exists>vs. fst (validate_data L (PList rows)) = Return vs)
            \<longleftrightarrow> (\<forall>r\<in>set rows. \<exists>c. check_row L r = Inr c))
       \<and> (\<forall>vs. fst (validate_data L (PList rows)) = Return vs
            \<longrightarrow> map Inr vs = map (check_row L) rows)
       \<and> ((\<exists>r\<in>set rows. \<forall>c. check_row L r \<noteq> Inr c)
            \<longrightarrow> top_level (fst (validate_data L (PList rows))) = Exit 1)
       \<and> ((\<exists>r\<in>set rows. \<forall>c. check_row L r \<noteq> Inr c)
           \<and> (\<forall>r\<in>set rows. \<forall>e. check_row L r = Inl e \<longrightarrow> is_ValueError e)
            \<longrightarrow> fst (validate_data L (PList rows)) = Exit 1)"
proof (cases "\<forall>r\<in>set rows. \<forall>e. check_row L r = Inl e \<longrightarrow> is_ValueError e")
  case True
  then have loop: "fst (validate_loop L 1 rows [] []) = Inr (accepted_of L rows)"
    using validate_loop_caught [of rows L 1 "[]" "[]"] by simp
  have vd: "fst (validate_data L (PList rows)) =
      (if length (accepted_of L rows) = length rows then Return (accepted_of L rows)
       else Exit 1)"
    using validate_data_list [OF ne, of L] loop by simp
  show ?thesis
  proof (cases "\<forall>r\<in>set rows. \<exists>c. check_row L r = Inr c")
    case all: True
    then have full: "length (accepted_of L rows) = length rows"
      by (simp add: accepted_of_full)
    from all have "map Inr (accepted_of L rows) = map (check_row L) rows"
      by (rule accepted_of_map)
    with vd full all show ?thesis by auto
  next
    case some: False
    then have "length (accepted_of L rows) \<noteq> length rows"
      by (simp add: accepted_of_full)
    with vd some show ?thesis by auto
  qed
next
  case False
  then have "\<exists>e. fst (validate_loop L 1 rows [] []) = Inl e"
    using validate_loop_uncaught [of rows L 1 "[]" "[]"] by blast
  then obtain e where "fst (validate_loop L 1 rows [] []) = Inl e" ..
  then have vd: "fst (validate_data L (PList rows)) = Raise e"
    using validate_data_list [OF ne, of L] by simp
  from False obtain r x where r: "r \<in> set rows" "check_row L r = Inl x" by auto
  then have "\<forall>c. check_row L r \<noteq> Inr c" by simp
  with r have some: "\<exists>r\<in>set rows. \<forall>c. check_row L r \<noteq> Inr c" by blast
  then have "\<not> (\<forall>r\<in>set rows. \<exists>c. check_row L r = Inr c)" by blast
  with vd False some show ?thesis by simp
qed

text \<open>
  The batch of two records of which the second has \<^verbatim>\<open>is_correct = 2\<close>: the first
  record is valid, the second is rejected, and the result is \<^verbatim>\<open>sys.exit(1)\<close>, not
  a list of one record.
\<close>

theorem validate_data_all_or_nothing_witness:
  "[row_ok, row_is_correct_2] \<noteq> []
   \<and> (\<exists>c. check_row loads_examples row_ok = Inr c)
   \<and> (\<exists>r\<in>set [row_ok, row_is_correct_2]. \<forall>c. check_row loads_examples r \<noteq> Inr c)
   \<and> fst (validate_data loads_examples (PList [row_ok, row_is_correct_2])) = Exit 1
   \<and> (\<forall>vs. fst (validate_data loads_examples (PList [row_ok, row_is_correct_2]))
          \<noteq> Return vs)"
proof -
  have ne: "[row_ok, row_is_correct_2] \<noteq> []" by simp
  have bad: "\<exists>r\<in>set [row_ok, row_is_correct_2]. \<forall>c. check_row loads_examples r \<noteq> Inr c"
    by (simp add: check_row_is_correct_2)
  have caught: "\<forall>r\<in>set [row_ok, row_is_correct_2].
      \<forall>e. check_row loads_examples r = Inl e \<longrightarrow> is_ValueError e"
    by (auto simp: check_row_is_correct_2 check_row_ok)
  from validate_data_all_or_nothing [OF ne, of loads_examples] bad caught
  have "fst (validate_data loads_examples (PList [row_ok, row_is_correct_2])) = Exit 1"
    by blast
  with ne bad show ?thesis by (simp add: check_row_ok)
qed

text \<open>
  Claim C10. A falsy batch (the empty list, \<^verbatim>\<open>None\<close>, an empty dict or string,
  zero, \<^verbatim>\<open>False\<close>) ends the process with status 1 at the first statement of
  \<^verbatim>\<open>validate_data\<close>: no record is examined, nothing is logged as rejected, and no
  empty list is returned.
\<close>

theorem validate_data_falsy_exits:
  "\<not> py_truthy data \<Longrightarrow> validate_data L data = (Exit 1, [])"
  by (simp add: validate_data_def)

theorem validate_data_falsy_exits_witness:
  "\<not> py_truthy (PList [])
   \<and> validate_data loads_examples (PList []) = (Exit 1, [])
   \<and> validate_data loads_examples PNone = (Exit 1, [])"
  using validate_data_falsy_exits [of "PList []" loads_examples]
    validate_data_falsy_exits [of PNone loads_examples]
  by simp

text \<open>
  Claim C9, at the record whose \<^verbatim>\<open>passback_params\<close> is the string \<^verbatim>\<open>[]\<close>. The
  string decodes, to a list and not to a mapping; \<^verbatim>\<open>.values()\<close> then raises
  \<^verbatim>\<open>AttributeError\<close>, which \<^verbatim>\<open>except ValueError\<close> does not catch: the exception
  leaves \<^verbatim>\<open>validate_data\<close>, and the record is not logged as rejected.
\<close>

theorem validate_data_nonmapping_passback_raises:
  "validate_data loads_examples (PList [row_passback ''[]'']) = (Raise AttributeError, [])"
  by (simp add: validate_data_def check_row_def row_passback_def required_fields_def
      in_0_1_None_def check_passback_def loads_examples_def replace_quotes_def)

lemma check_required_dict:
  "check_required (PDict kvs) fs = Inl e \<Longrightarrow> is_ValueError e"
  by (induction fs) (auto split: if_splits)

lemma check_values_bad:
  "\<exists>v\<in>set vs. v \<noteq> PNone \<and> \<not> is_str v \<Longrightarrow>
     check_values vs = Inl (ValueError ''All values in 'passback_params' must be strings'')"
  by (induction vs) auto

lemma check_row_dict_passback:
  assumes pp: "py_get (PDict kvs) ''passback_params'' = Inr (PStr s)"
    and bad: "check_passback loads (PStr s) = Inl e" "is_ValueError e"
  shows "\<exists>e'. check_row loads (PDict kvs) = Inl e' \<and> is_ValueError e'"
proof (cases "check_required (PDict kvs) required_fields")
  case (Inl x)
  then have "is_ValueError x" by (rule check_required_dict)
  with Inl show ?thesis by (simp add: check_row_def)
next
  case (Inr u)
  with pp bad show ?thesis
    by (auto simp: check_row_def split: sum.splits option.splits)
qed

text \<open>
  What the validator does with a \<^verbatim>\<open>passback_params\<close> string that does not decode:
  the decoder's \<^verbatim>\<open>ValueError\<close> is caught, so the record of a one-record batch is
  logged as rejected and the batch ends with status 1.
\<close>

theorem decode_error_is_rejection:
  assumes "py_get (PDict kvs) ''passback_params'' = Inr (PStr s)"
    and "loads (replace_quotes s) = Inl e" and "is_ValueError e"
  shows "\<exists>e'. check_row loads (PDict kvs) = Inl e' \<and> is_ValueError e'
            \<and> validate_data loads (PList [PDict kvs]) = (Exit 1, [(1, e')])"
proof -
  from assms(2) have "check_passback loads (PStr s) = Inl e"
    by (simp add: check_passback_def)
  from check_row_dict_passback [OF assms(1) this assms(3)]
  obtain e' where "check_row loads (PDict kvs) = Inl e'" "is_ValueError e'" by blast
  then show ?thesis by (simp add: validate_data_def)
qed

theorem decode_error_is_rejection_witness:
  "py_get (row_passback ''{'') ''passback_params'' = Inr (PStr ''{'')
   \<and> loads_examples (replace_quotes ''{'') = Inl JSONDecodeError
   \<and> is_ValueError JSONDecodeError
   \<and> validate_data loads_examples (PList [row_passback ''{'']) = (Exit 1, [(1, JSONDecodeError)])"
proof -
  have a: "py_get (PDict [(''lti_user_id'', PStr ''u1''), (''passback_params'', PStr ''{''),
            (''is_correct'', PInt 1), (''attempt_type'', PStr ''submit''),
            (''created_at'', PStr ''2024-05-01 10:30:00'')]) ''passback_params'' = Inr (PStr ''{'')"
    by simp
  have b: "loads_examples (replace_quotes ''{'') = Inl JSONDecodeError"
    by (simp add: loads_examples_def replace_quotes_def)
  have c: "is_ValueError JSONDecodeError" by simp
  from decode_error_is_rejection [where loads = loads_examples, OF a b c]
  obtain e' where "validate_data loads_examples (PList [row_passback ''{'']) = (Exit 1, [(1, e')])"
    and "check_row loads_examples (row_passback ''{'') = Inl e'"
    by (auto simp: row_passback_def)
  moreover have "check_row loads_examples (row_passback ''{'') = Inl JSONDecodeError"
    by (simp add: check_row_def row_passback_def required_fields_def in_0_1_None_def
        check_passback_def loads_examples_def replace_quotes_def)
  ultimately have "validate_data loads_examples (PList [row_passback ''{'']) = (Exit 1, [(1, JSONDecodeError)])"
    by simp
  with a b c show ?thesis by (simp add: row_passback_def)
qed

text \<open>
  A string that decodes to a mapping with a value that is neither a string nor
  \<^verbatim>\<open>None\<close> is a rejection as well.
\<close>

theorem non_string_value_is_rejection:
  assumes "py_get (PDict kvs) ''passback_params'' = Inr (PStr s)"
    and "loads (replace_quotes s) = Inr (PDict m)"
    and "\<exists>v\<in>set (map snd m). v \<noteq> PNone \<and> \<not> is_str v"
  shows "\<exists>e'. check_row loads (PDict kvs) = Inl e' \<and> is_ValueError e'
            \<and> validate_data loads (PList [PDict kvs]) = (Exit 1, [(1, e')])"
proof -
  from assms(3) have "check_values (map snd m)
      = Inl (ValueError ''All values in 'passback_params' must be strings'')"
    by (rule check_values_bad)
  with assms(2) have p: "check_passback loads (PStr s)
      = Inl (ValueError ''All values in 'passback_params' must be strings'')"
    by (simp add: check_passback_def)
  have "is_ValueError (ValueError ''All values in 'passback_params' must be strings'')" by simp
  from check_row_dict_passback [OF assms(1) p this]
  obtain e' where "check_row loads (PDict kvs) = Inl e'" "is_ValueError e'" by blast
  then show ?thesis by (simp add: validate_data_def)
qed

theorem non_string_value_is_rejection_witness:
  "py_get (row_passback quoted_n_1) ''passback_params'' = Inr (PStr quoted_n_1)
   \<and> loads_examples (replace_quotes quoted_n_1) = Inr (PDict [(''n'', PInt 1)])
   \<and> (\<exists>v\<in>set (map snd [(''n'', PInt 1)]). v \<noteq> PNone \<and> \<not> is_str v)
   \<and> (\<exists>e'. validate_data loads_examples (PList [row_passback quoted_n_1]) = (Exit 1, [(1, e')]))"
proof -
  have a: "py_get (PDict [(''lti_user_id'', PStr ''u1''), (''passback_params'', PStr quoted_n_1),
            (''is_correct'', PInt 1), (''attempt_type'', PStr ''submit''),
            (''created_at'', PStr ''2024-05-01 10:30:00'')]) ''passback_params'' = Inr (PStr quoted_n_1)"
    by simp
  have b: "loads_examples (replace_quotes quoted_n_1) = Inr (PDict [(''n'', PInt 1)])"
    by (simp add: loads_examples_def replace_quotes_def quoted_n_1_def)
  have c: "\<exists>v\<in>set (map snd [(''n'', PInt 1)]). v \<noteq> PNone \<and> \<not> is_str v" by simp
  from non_string_value_is_rejection [where loads = loads_examples, OF a b c]
  have "\<exists>e'. validate_data loads_examples (PList [row_passback quoted_n_1]) = (Exit 1, [(1, e')])"
    by (auto simp: row_passback_def)
  with a b c show ?thesis by (simp add: row_passback_def)
qed

section \<open>Properties of the date-range gate\<close>





section \<open>Properties of the loader\<close>

lemma dedup_where_iff:
  "dedup_where uid ts r = Some True \<longleftrightarrow>
     created_at r = ts \<and> (user_id r = None \<or> (uid \<noteq> None \<and> user_id r = uid))"
  by (cases "user_id r"; cases uid; cases "created_at r = ts"; cases "user_id r = uid")
     (auto simp: dedup_where_def)

lemma dedup_count_pos:
  "0 < dedup_count uid ts rows \<longleftrightarrow>
     (\<exists>r\<in>set rows. created_at r = ts \<and> (user_id r = None \<or> (uid \<noteq> None \<and> user_id r = uid)))"
  by (auto simp: dedup_count_def dedup_where_iff filter_empty_conv)







lemma load_loop_no_fault:
  "\<forall>q. fault q = None \<Longrightarrow> \<not> aborted c \<Longrightarrow> pending c t = Some rows \<Longrightarrow>
   \<exists>k'. load_loop fault t vdata k c =
           (Inr k', c\<lparr>pending := (pending c)(t \<mapsto> load_rows vdata rows)\<rparr>)"
proof (induction vdata arbitrary: k c rows)
  case Nil
  then have "(pending c)(t \<mapsto> rows) = pending c" by (simp add: fun_upd_idem)
  then show ?case by simp
next
  case (Cons row vdata)
  have sel: "select_count fault t (user_id row) (created_at row) c
      = (Inr (dedup_count (user_id row) (created_at row) rows), c)"
    using Cons.prems by (simp add: select_count_def refusal_def)
  show ?case
  proof (cases "dedup_count (user_id row) (created_at row) rows = 0")
    case True
    let ?c2 = "c\<lparr>pending := (pending c)(t \<mapsto> rows @ [row])\<rparr>"
    have ins: "insert_row fault t row c = (Inr (), ?c2)"
      using Cons.prems by (simp add: insert_row_def refusal_def)
    have "\<not> aborted ?c2" "pending ?c2 t = Some (rows @ [row])" using Cons.prems by simp_all
    from Cons.IH [OF Cons.prems(1) this, of k]
    obtain k' where loop: "load_loop fault t vdata k ?c2 =
        (Inr k', ?c2\<lparr>pending := (pending ?c2)(t \<mapsto> load_rows vdata (rows @ [row]))\<rparr>)" ..
    have same: "?c2\<lparr>pending := (pending ?c2)(t \<mapsto> load_rows vdata (rows @ [row]))\<rparr>
        = c\<lparr>pending := (pending c)(t \<mapsto> load_rows vdata (rows @ [row]))\<rparr>"
      by simp
    have "load_loop fault t (row # vdata) k c = load_loop fault t vdata k ?c2"
      using sel ins True by simp
    also note loop
    also note same
    finally have "load_loop fault t (row # vdata) k c =
        (Inr k', c\<lparr>pending := (pending c)(t \<mapsto> load_rows (row # vdata) rows)\<rparr>)"
      using True by simp
    then show ?thesis by (rule exI)
  next
    case False
    from Cons.IH [OF Cons.prems, of "k + dedup_count (user_id row) (created_at row) rows"]
    obtain k' where loop: "load_loop fault t vdata (k + dedup_count (user_id row) (created_at row) rows) c =
        (Inr k', c\<lparr>pending := (pending c)(t \<mapsto> load_rows vdata rows)\<rparr>)" ..
    have "load_loop fault t (row # vdata) k c
        = load_loop fault t vdata (k + dedup_count (user_id row) (created_at row) rows) c"
      using sel False by simp
    also note loop
    finally have "load_loop fault t (row # vdata) k c =
        (Inr k', c\<lparr>pending := (pending c)(t \<mapsto> load_rows (row # vdata) rows)\<rparr>)"
      using False by simp
    then show ?thesis by (rule exI)
  qed
qed

lemma load_data_no_fault:
  assumes "\<forall>q. fault q = None" "\<not> aborted c" "pending c t = Some rows"
  shows "load_data_to_db fault t vdata c =
      (Return (), c\<lparr>pending := (pending c)(t \<mapsto> load_rows vdata rows),
                     committed := (pending c)(t \<mapsto> load_rows vdata rows)\<rparr>)"
proof -
  from load_loop_no_fault [OF assms, of vdata 0] obtain k' where
    "load_loop fault t vdata 0 c = (Inr k', c\<lparr>pending := (pending c)(t \<mapsto> load_rows vdata rows)\<rparr>)" ..
  with assms show ?thesis by (simp add: load_data_to_db_def commit_def)
qed

text \<open>
  Claim C2, as the code has it. When no statement fails, loading one record into a
  table leaves the table as it is (the record is skipped) exactly when the table
  holds a row with the record's \<^verbatim>\<open>created_at\<close> whose own \<^verbatim>\<open>user_id\<close> is null or
  equals the record's non-null \<^verbatim>\<open>user_id\<close>; otherwise the record is appended. The
  null match is on the stored row's side only: the query compares the column with
  the parameter by \<^verbatim>\<open>=\<close>, which is never true for a \<^verbatim>\<open>NULL\<close> parameter.
\<close>

theorem load_dedup_rule:
  assumes "\<forall>q. fault q = None" "\<not> aborted c" "pending c t = Some rows"
  shows "pending (snd (load_data_to_db fault t [row] c)) t =
           Some (if (\<exists>r\<in>set rows. created_at r = created_at row
                       \<and> (user_id r = None \<or> (user_id row \<noteq> None \<and> user_id r = user_id row)))
                 then rows else rows @ [row])"
proof -
  have "load_rows [row] rows =
      (if (\<exists>r\<in>set rows. created_at r = created_at row
                       \<and> (user_id r = None \<or> (user_id row \<noteq> None \<and> user_id r = user_id row)))
                 then rows else rows @ [row])"
    using dedup_count_pos [of "user_id row" "created_at row" rows] by auto
  with load_data_no_fault [OF assms, of "[row]"] show ?thesis by simp
qed

lemma no_fault_all: "\<forall>q. no_fault q = None" by (simp add: no_fault_def)

text \<open>
  The claim as the spec states it fails: the table holds a row of user \<^verbatim>\<open>u1\<close> with
  \<^verbatim>\<open>created_at = T\<close>, the record has no user and the same \<^verbatim>\<open>created_at\<close>, and
  the record is inserted, not skipped.
\<close>

theorem null_user_id_record_inserted:
  "user_id rec_null = None
   \<and> created_at rec_null = created_at stored_u1
   \<and> pending conn_u1 ''t'' = Some [stored_u1]
   \<and> pending (snd (load_data_to_db no_fault ''t'' [rec_null] conn_u1)) ''t''
       = Some [stored_u1, rec_null]"
proof -
  have a: "\<not> aborted conn_u1" "pending conn_u1 ''t'' = Some [stored_u1]"
    by (simp_all add: conn_u1_def)
  have "load_rows [rec_null] [stored_u1] = [stored_u1, rec_null]"
    by (simp add: dedup_count_def dedup_where_def rec_null_def stored_u1_def)
  with load_data_no_fault [OF no_fault_all a, of "[rec_null]"] a
  show ?thesis by (simp add: rec_null_def stored_u1_def)
qed

theorem load_dedup_rule_witness:
  "\<not> aborted conn_u1 \<and> pending conn_u1 ''t'' = Some [stored_u1]
   \<and> pending (snd (load_data_to_db no_fault ''t'' [stored_u1] conn_u1)) ''t'' = Some [stored_u1]
   \<and> pending (snd (load_data_to_db no_fault ''t'' [rec_null] conn_u1)) ''t''
       = Some [stored_u1, rec_null]"
proof -
  have a: "\<not> aborted conn_u1" "pending conn_u1 ''t'' = Some [stored_u1]"
    by (simp_all add: conn_u1_def)
  from load_dedup_rule [OF no_fault_all a, of stored_u1] load_dedup_rule [OF no_fault_all a, of rec_null] a
  show ?thesis by (simp add: rec_null_def stored_u1_def)
qed



lemma select_count_committed:
  "committed (snd (select_count fault t uid ts c)) = committed c"
  by (auto simp: select_count_def failed_def split: option.splits)

lemma insert_row_committed:
  "committed (snd (insert_row fault t row c)) = committed c"
  by (auto simp: insert_row_def failed_def split: option.splits)

lemma load_loop_committed:
  "committed (snd (load_loop fault t vdata k c)) = committed c"
proof (induction vdata arbitrary: k c)
  case Nil
  then show ?case by simp
next
  case (Cons row vdata)
  obtain r1 c1 where sel: "select_count fault t (user_id row) (created_at row) c = (r1, c1)"
    by (cases "select_count fault t (user_id row) (created_at row) c")
  obtain r2 c2 where ins: "insert_row fault t row c1 = (r2, c2)"
    by (cases "insert_row fault t row c1")
  from sel have k1: "committed c1 = committed c"
    using select_count_committed [of fault t "user_id row" "created_at row" c] by simp
  from ins have k2: "committed c2 = committed c1"
    using insert_row_committed [of fault t row c1] by simp
  from sel ins k1 k2 Cons.IH show ?case
    by (auto split: sum.splits if_splits)
qed

text \<open>A load whose loop raised commits nothing, whatever was raised.\<close>

lemma load_data_failure_commits_nothing:
  "fst (load_loop fault t vdata 0 c) = Inl x
     \<Longrightarrow> committed (snd (load_data_to_db fault t vdata c)) = committed c"
  using load_loop_committed [of fault t vdata 0 c]
  by (cases "load_loop fault t vdata 0 c") (auto simp: load_data_to_db_def)

lemma load_data_outcome:
  "fst (load_loop fault t vdata 0 c) = Inl x
     \<Longrightarrow> fst (load_data_to_db fault t vdata c) = except_psycopg2 x"
  by (cases "load_loop fault t vdata 0 c") (auto simp: load_data_to_db_def)

text \<open>When the driver and the server raise nothing but \<^verbatim>\<open>psycopg2.Error\<close>, so does
  every statement.\<close>

lemma refusal_psycopg2:
  "\<forall>q. fault q = None \<or> fault q = Some DatabaseError \<Longrightarrow> refusal fault q c = Some e
     \<Longrightarrow> e = DatabaseError"
proof -
  assume a: "\<forall>q. fault q = None \<or> fault q = Some DatabaseError"
    and r: "refusal fault q c = Some e"
  from a have "fault q = None \<or> fault q = Some DatabaseError" ..
  with r show ?thesis by (auto simp: refusal_def split: if_splits)
qed

lemma select_tables_error:
  "\<forall>q. fault q = None \<or> fault q = Some DatabaseError
     \<Longrightarrow> fst (select_tables fault c) = Inl e \<Longrightarrow> e = DatabaseError"
  using refusal_psycopg2 [of fault SelectTables c]
  by (auto simp: select_tables_def failed_def split: option.splits)

lemma select_exists_error:
  "\<forall>q. fault q = None \<or> fault q = Some DatabaseError
     \<Longrightarrow> fst (select_exists fault t c) = Inl e \<Longrightarrow> e = DatabaseError"
  using refusal_psycopg2 [of fault "SelectExists t" c]
  by (auto simp: select_exists_def failed_def split: option.splits)

lemma create_table_stmt_error:
  "\<forall>q. fault q = None \<or> fault q = Some DatabaseError
     \<Longrightarrow> fst (create_table_stmt fault t c) = Inl e \<Longrightarrow> e = DatabaseError"
  using refusal_psycopg2 [of fault "CreateTable t" c]
  by (auto simp: create_table_stmt_def failed_def split: option.splits)

lemma select_count_error:
  "\<forall>q. fault q = None \<or> fault q = Some DatabaseError
     \<Longrightarrow> fst (select_count fault t uid ts c) = Inl e \<Longrightarrow> e = DatabaseError"
  using refusal_psycopg2 [of fault "SelectCount t uid ts" c]
  by (auto simp: select_count_def failed_def split: option.splits)

lemma insert_row_error:
  "\<forall>q. fault q = None \<or> fault q = Some DatabaseError
     \<Longrightarrow> fst (insert_row fault t row c) = Inl e \<Longrightarrow> e = DatabaseError"
  using refusal_psycopg2 [of fault "InsertRow t row" c]
  by (auto simp: insert_row_def failed_def split: option.splits)

lemma load_loop_error:
  assumes ps: "\<forall>q. fault q = None \<or> fault q = Some DatabaseError"
  shows "fst (load_loop fault t vdata k c) = Inl e \<Longrightarrow> e = DatabaseError"
proof (induction vdata arbitrary: k c)
  case Nil
  then show ?case by simp
next
  case (Cons row vdata)
  obtain r1 c1 where sel: "select_count fault t (user_id row) (created_at row) c = (r1, c1)"
    by (cases "select_count fault t (user_id row) (created_at row) c")
  obtain r2 c2 where ins: "insert_row fault t row c1 = (r2, c2)"
    by (cases "insert_row fault t row c1")
  from sel have e1: "\<And>x. r1 = Inl x \<Longrightarrow> x = DatabaseError"
    using select_count_error [OF ps, of t "user_id row" "created_at row" c] by simp
  from ins have e2: "\<And>x. r2 = Inl x \<Longrightarrow> x = DatabaseError"
    using insert_row_error [OF ps, of t row c1] by simp
  from Cons.prems sel ins e1 e2 Cons.IH show ?case
    by (auto split: sum.splits if_splits)
qed

lemma load_data_returns:
  assumes ps: "\<forall>q. fault q = None \<or> fault q = Some DatabaseError"
  shows "fst (load_data_to_db fault t vdata c) = Return ()"
proof (cases "load_loop fault t vdata 0 c")
  case (Pair r c1)
  show ?thesis
  proof (cases r)
    case (Inl e)
    with Pair have "e = DatabaseError" using load_loop_error [OF ps, of t vdata 0 c e] by simp
    with Pair Inl show ?thesis by (simp add: load_data_to_db_def)
  next
    case (Inr n)
    with Pair show ?thesis by (simp add: load_data_to_db_def)
  qed
qed

lemma get_all_tables_returns:
  assumes ps: "\<forall>q. fault q = None \<or> fault q = Some DatabaseError"
  shows "fst (get_all_tables fault c) = Return ()"
proof (cases "select_tables fault c")
  case (Pair r c1)
  show ?thesis
  proof (cases r)
    case (Inl e)
    with Pair have "e = DatabaseError" using select_tables_error [OF ps, of c e] by simp
    with Pair Inl show ?thesis by (simp add: get_all_tables_def)
  next
    case (Inr u)
    with Pair show ?thesis by (simp add: get_all_tables_def)
  qed
qed

lemma create_table_returns:
  assumes ps: "\<forall>q. fault q = None \<or> fault q = Some DatabaseError"
  shows "fst (create_table fault t c) = Return ()"
proof (cases "select_exists fault t c")
  case (Pair r c1)
  show ?thesis
  proof (cases r)
    case (Inl e)
    with Pair have "e = DatabaseError" using select_exists_error [OF ps, of t c e] by simp
    with Pair Inl show ?thesis by (simp add: create_table_def)
  next
    case (Inr ex)
    show ?thesis
    proof (cases "create_table_stmt fault t c1")
      case inner: (Pair r' c2)
      show ?thesis
      proof (cases r')
        case (Inl e)
        with inner have "e = DatabaseError"
          using create_table_stmt_error [OF ps, of t c1 e] by simp
        with Pair Inr inner Inl show ?thesis by (simp add: create_table_def)
      next
        case r'': (Inr u)
        with Pair Inr inner show ?thesis by (simp add: create_table_def)
      qed
    qed
  qed
qed

text \<open>The outcome of a query method is a return or a raise, never an exit.\<close>

lemma except_psycopg2_cases: "except_psycopg2 e = Return () \<or> except_psycopg2 e = Raise e"
  by (cases e) simp_all

lemma get_all_tables_outcome:
  "fst (get_all_tables fault c) = Return () \<or> (\<exists>x. fst (get_all_tables fault c) = Raise x)"
  using except_psycopg2_cases
  by (auto simp: get_all_tables_def split: prod.splits sum.splits)

lemma create_table_outcome:
  "fst (create_table fault t c) = Return () \<or> (\<exists>x. fst (create_table fault t c) = Raise x)"
  using except_psycopg2_cases
  by (auto simp: create_table_def split: prod.splits sum.splits)

lemma load_data_outcome_cases:
  "fst (load_data_to_db fault t vdata c) = Return ()
     \<or> (\<exists>x. fst (load_data_to_db fault t vdata c) = Raise x)"
  using except_psycopg2_cases
  by (auto simp: load_data_to_db_def split: prod.splits sum.splits)

text \<open>The storage stage ends normally exactly when its three calls return.\<close>

lemma storage_stage_connected:
  "fst (storage_stage fault (Inr c) vdata) =
     (if fst (get_all_tables fault c) = Return ()
         \<and> fst (create_table fault ''ppf_2024_may'' (snd (get_all_tables fault c))) = Return ()
         \<and> fst (load_data_to_db fault ''ppf_2024_may'' vdata
                  (snd (create_table fault ''ppf_2024_may'' (snd (get_all_tables fault c)))))
             = Return ()
      then Return () else Exit 1)"
proof -
  obtain r0 c0 where g: "get_all_tables fault c = (r0, c0)" by (cases "get_all_tables fault c")
  obtain r1 c1 where k: "create_table fault ''ppf_2024_may'' c0 = (r1, c1)"
    by (cases "create_table fault ''ppf_2024_may'' c0")
  obtain r2 c2 where l: "load_data_to_db fault ''ppf_2024_may'' vdata c1 = (r2, c2)"
    by (cases "load_data_to_db fault ''ppf_2024_may'' vdata c1")
  have o0: "r0 = Return () \<or> (\<exists>x. r0 = Raise x)"
    using get_all_tables_outcome [of fault c] g by simp
  have o1: "r1 = Return () \<or> (\<exists>x. r1 = Raise x)"
    using create_table_outcome [of fault "''ppf_2024_may''" c0] k by simp
  have o2: "r2 = Return () \<or> (\<exists>x. r2 = Raise x)"
    using load_data_outcome_cases [of fault "''ppf_2024_may''" vdata c1] l by simp
  from o0 o1 o2 g k l show ?thesis
    by (auto simp: storage_stage_def db_init_def)
qed

lemma storage_stage_not_connected: "storage_stage fault (Inl e) vdata = (Exit 1, None)"
  by (simp add: storage_stage_def db_init_def)

lemma storage_stage_psycopg2:
  assumes ps: "\<forall>q. fault q = None \<or> fault q = Some DatabaseError"
  shows "fst (storage_stage fault (Inr c) vdata) = Return ()"
  by (simp add: storage_stage_connected get_all_tables_returns [OF ps]
      create_table_returns [OF ps] load_data_returns [OF ps])

lemma load_data_first_query_raises:
  "fault (SelectCount t (user_id row) (created_at row)) = Some x \<Longrightarrow> x \<noteq> DatabaseError
     \<Longrightarrow> load_data_to_db fault t (row # vdata) c = (Raise x, c)"
  by (cases x) (simp_all add: load_data_to_db_def select_count_def refusal_def failed_def)

text \<open>
  Claim C4, as the code has it. A failure to connect ends the process with status
  1. A query that fails with a \<^verbatim>\<open>psycopg2.Error\<close> does not: \<^verbatim>\<open>create_table\<close> and
  \<^verbatim>\<open>load_data_to_db\<close> catch the error, log it and return, so that, when nothing but
  \<^verbatim>\<open>psycopg2.Error\<close> is raised, the storage stage runs every call and the script
  ends with status 0. Whatever the loop of a load raised, the load commits nothing;
  it returns when the exception is a \<^verbatim>\<open>psycopg2.Error\<close> and raises it otherwise. An
  exception of another class at the first query of a load (the driver's
  \<^verbatim>\<open>ValueError\<close> for a NUL character in a string parameter) leaves the method with
  the connection untouched. The storage stage ends with status 0 when its three
  calls return and with status 1, through the handler of the script's top level,
  when one of them raises.
\<close>

theorem storage_error_handling:
  "db_init (Inl e) = Exit 1
   \<and> storage_stage fault (Inl e) vdata = (Exit 1, None)
   \<and> ((\<forall>q. fault q = None \<or> fault q = Some DatabaseError) \<longrightarrow>
         fst (create_table fault t c) = Return ()
       \<and> fst (load_data_to_db fault t vdata c) = Return ()
       \<and> exit_status (fst (storage_stage fault (Inr c) vdata)) = 0)
   \<and> (\<forall>x. fst (load_loop fault t vdata 0 c) = Inl x \<longrightarrow>
         fst (load_data_to_db fault t vdata c)
           = (if x = DatabaseError then Return () else Raise x)
       \<and> committed (snd (load_data_to_db fault t vdata c)) = committed c)
   \<and> (\<forall>x. fault (SelectCount t (user_id row) (created_at row)) = Some x \<and> x \<noteq> DatabaseError
         \<longrightarrow> load_data_to_db fault t (row # vdata) c = (Raise x, c))
   \<and> fst (storage_stage fault (Inr c) vdata) =
       (if fst (get_all_tables fault c) = Return ()
           \<and> fst (create_table fault ''ppf_2024_may'' (snd (get_all_tables fault c))) = Return ()
           \<and> fst (load_data_to_db fault ''ppf_2024_may'' vdata
                    (snd (create_table fault ''ppf_2024_may'' (snd (get_all_tables fault c)))))
               = Return ()
        then Return () else Exit 1)"
proof (intro conjI allI impI)
  show "db_init (Inl e) = Exit 1" by (simp add: db_init_def)
  show "storage_stage fault (Inl e) vdata = (Exit 1, None)"
    by (rule storage_stage_not_connected)
next
  assume ps: "\<forall>q. fault q = None \<or> fault q = Some DatabaseError"
  show "fst (create_table fault t c) = Return ()" by (rule create_table_returns [OF ps])
  show "fst (load_data_to_db fault t vdata c) = Return ()" by (rule load_data_returns [OF ps])
  show "exit_status (fst (storage_stage fault (Inr c) vdata)) = 0"
    by (simp add: storage_stage_psycopg2 [OF ps])
next
  fix x assume l: "fst (load_loop fault t vdata 0 c) = Inl x"
  from load_data_outcome [OF l]
  show "fst (load_data_to_db fault t vdata c) = (if x = DatabaseError then Return () else Raise x)"
    by (cases x) simp_all
  from l show "committed (snd (load_data_to_db fault t vdata c)) = committed c"
    by (rule load_data_failure_commits_nothing)
next
  fix x assume "fault (SelectCount t (user_id row) (created_at row)) = Some x \<and> x \<noteq> DatabaseError"
  then show "load_data_to_db fault t (row # vdata) c = (Raise x, c)"
    by (simp add: load_data_first_query_raises)
next
  show "fst (storage_stage fault (Inr c) vdata) =
       (if fst (get_all_tables fault c) = Return ()
           \<and> fst (create_table fault ''ppf_2024_may'' (snd (get_all_tables fault c))) = Return ()
           \<and> fst (load_data_to_db fault ''ppf_2024_may'' vdata
                    (snd (create_table fault ''ppf_2024_may'' (snd (get_all_tables fault c)))))
               = Return ()
        then Return () else Exit 1)"
    by (rule storage_stage_connected)
qed

text \<open>
  The claim as the spec states it fails: the server refuses \<^verbatim>\<open>CREATE TABLE\<close>, the
  script goes on to the load (whose query fails in the aborted transaction) and
  ends with status 0.
\<close>

theorem query_failure_not_fatal:
  "fst (create_table_stmt fault_create ''ppf_2024_may'' conn_empty) = Inl DatabaseError
   \<and> fst (storage_stage fault_create (Inr conn_empty) [rec_null]) = Return ()
   \<and> exit_status (fst (storage_stage fault_create (Inr conn_empty) [rec_null])) = 0"
  by (simp add: storage_stage_def db_init_def get_all_tables_def select_tables_def
      create_table_def select_exists_def create_table_stmt_def load_data_to_db_def
      select_count_def refusal_def failed_def fault_create_def conn_empty_def)

lemma nul_q: "nul_refusal (SelectCount ''ppf_2024_may'' (user_id rec_nul) (created_at rec_nul))
       = Some (ValueError ''A string literal cannot contain NUL (0x00) characters.'')"
  by (simp add: nul_refusal_def rec_nul_def)

text \<open>
  Both kinds of failure: the refused \<^verbatim>\<open>CREATE TABLE\<close>, after which the run ends with
  status 0 and nothing committed, and a record whose \<^verbatim>\<open>created_at\<close> holds a NUL
  character, for which the driver raises \<^verbatim>\<open>ValueError\<close> and the run ends with
  status 1.
\<close>

theorem storage_error_handling_witness:
  "(\<forall>q. fault_create q = None \<or> fault_create q = Some DatabaseError)
   \<and> fst (load_loop fault_create ''ppf_2024_may'' [rec_null] 0 conn_empty) = Inl DatabaseError
   \<and> fst (load_data_to_db fault_create ''ppf_2024_may'' [rec_null] conn_empty) = Return ()
   \<and> committed (snd (load_data_to_db fault_create ''ppf_2024_may'' [rec_null] conn_empty))
       = committed conn_empty
   \<and> exit_status (fst (storage_stage fault_create (Inr conn_empty) [rec_null])) = 0
   \<and> storage_stage fault_create (Inl OtherError) [rec_null] = (Exit 1, None)
   \<and> nul_refusal (SelectCount ''ppf_2024_may'' (user_id rec_nul) (created_at rec_nul))
       = Some (ValueError ''A string literal cannot contain NUL (0x00) characters.'')
   \<and> load_data_to_db nul_refusal ''ppf_2024_may'' [rec_nul] conn_may
       = (Raise (ValueError ''A string literal cannot contain NUL (0x00) characters.''), conn_may)
   \<and> fst (storage_stage nul_refusal (Inr conn_may) [rec_nul]) = Exit 1"
proof -
  have ps: "\<forall>q. fault_create q = None \<or> fault_create q = Some DatabaseError"
    by (simp add: fault_create_def)
  have l: "fst (load_loop fault_create ''ppf_2024_may'' [rec_null] 0 conn_empty) = Inl DatabaseError"
    by (simp add: select_count_def refusal_def failed_def fault_create_def conn_empty_def)
  note a = storage_error_handling [of OtherError fault_create "[rec_null]" "''ppf_2024_may''"
      conn_empty rec_null]
  from a ps have x1:
    "fst (load_data_to_db fault_create ''ppf_2024_may'' [rec_null] conn_empty) = Return ()
     \<and> exit_status (fst (storage_stage fault_create (Inr conn_empty) [rec_null])) = 0"
    by blast
  from a l have x2:
    "committed (snd (load_data_to_db fault_create ''ppf_2024_may'' [rec_null] conn_empty))
       = committed conn_empty"
    by blast
  from a have x3: "storage_stage fault_create (Inl OtherError) [rec_null] = (Exit 1, None)"
    by blast
  note b = storage_error_handling [of OtherError nul_refusal "[]" "''ppf_2024_may''"
      conn_may rec_nul]
  have ne: "ValueError ''A string literal cannot contain NUL (0x00) characters.'' \<noteq> DatabaseError"
    by simp
  from b nul_q ne have p2: "load_data_to_db nul_refusal ''ppf_2024_may'' [rec_nul] conn_may
       = (Raise (ValueError ''A string literal cannot contain NUL (0x00) characters.''), conn_may)"
    by blast
  have g: "get_all_tables nul_refusal conn_may = (Return (), conn_may)"
    by (simp add: get_all_tables_def select_tables_def refusal_def nul_refusal_def conn_may_def)
  have k: "create_table nul_refusal ''ppf_2024_may'' conn_may = (Return (), conn_may)"
    by (simp add: create_table_def select_exists_def refusal_def nul_refusal_def conn_may_def)
  note d = storage_error_handling [of OtherError nul_refusal "[rec_nul]" "''ppf_2024_may''"
      conn_may rec_nul]
  from d g k p2 have p3: "fst (storage_stage nul_refusal (Inr conn_may) [rec_nul]) = Exit 1"
    by simp
  from ps l x1 x2 x3 nul_q p2 p3 show ?thesis by simp
qed

section \<open>Properties of the aggregator\<close>

lemmas agg_eval = calc_for_gsheets_def calc_body_def agg_step_def agg_init_def hour_token_def
  percent_def py_max_key_def dict_get0_def user_summary_def py_mean_def py_round_def
  round_half_even_def Let_def

text \<open>
  Claim C7. For three records of user \<^verbatim>\<open>u1\<close>, a run attempt at 10:00, a correct
  submit at 10:30 and an incorrect submit at 11:00 of 2024-05-01, whatever their
  other fields, \<^verbatim>\<open>calc_for_gsheets\<close> reports 3 attempts, 1 run attempt, 2 submits,
  1 successful submit, 50 percent successful, 1 unique user, peak hour \<^verbatim>\<open>10\<close> and
  3 attempts per user on average.
\<close>

theorem calc_for_gsheets_u1_scenario:
  "calc_for_gsheets
     [\<lparr> user_id = Some ''u1'', oauth_consumer_key = k1, lis_result_sourcedid = s1,
         lis_outcome_service_url = l1, is_correct = PNone, attempt_type = a1,
         created_at = ''2024-05-01 10:00:00'' \<rparr>,
      \<lparr> user_id = Some ''u1'', oauth_consumer_key = k2, lis_result_sourcedid = s2,
         lis_outcome_service_url = l2, is_correct = PInt 1, attempt_type = a2,
         created_at = ''2024-05-01 10:30:00'' \<rparr>,
      \<lparr> user_id = Some ''u1'', oauth_consumer_key = k3, lis_result_sourcedid = s3,
         lis_outcome_service_url = l3, is_correct = PInt 0, attempt_type = a3,
         created_at = ''2024-05-01 11:00:00'' \<rparr>]
   = Some \<lparr> all_attempts = 3, run_attempts = 1, submits = 2, successfull_submits = 1,
            percent_of_successfull_submits = 50, unique_users = 1,
            max_activity_hour = ''10'', avg_attempts_per_user = 3,
            avg_run_attempts_per_user = 1, avg_submits_per_user = 2,
            avg_successfull_submits_per_user = 1 \<rparr>"
  by (simp add: agg_eval)

lemma takeWhile_not_in:
  "sep \<notin> set a \<Longrightarrow> takeWhile (\<lambda>c. c \<noteq> sep) (a @ b) = a @ takeWhile (\<lambda>c. c \<noteq> sep) b"
  by (induction a) auto

lemma py_split_first: "\<exists>ps. py_split sep s = takeWhile (\<lambda>c. c \<noteq> sep) s # ps"
  by (induction s) (auto split: list.splits)

lemma py_split_at: "sep \<notin> set a \<Longrightarrow> py_split sep (a @ sep # b) = a # py_split sep b"
  by (induction a) (auto split: list.splits)

lemma hour_token_shape:
  assumes "CHR '' '' \<notin> set d" "CHR '' '' \<notin> set h" "CHR '':'' \<notin> set h"
  shows "hour_token (d @ CHR '' '' # h @ CHR '':'' # rest) = Inr h"
proof -
  let ?tail = "h @ CHR '':'' # rest"
  have s1: "py_split CHR '' '' (d @ CHR '' '' # ?tail) = d # py_split CHR '' '' ?tail"
    using assms(1) by (rule py_split_at)
  obtain ps where s2: "py_split CHR '' '' ?tail = takeWhile (\<lambda>c. c \<noteq> CHR '' '') ?tail # ps"
    using py_split_first by blast
  have tw: "takeWhile (\<lambda>c. c \<noteq> CHR '' '') ?tail = h @ CHR '':'' # takeWhile (\<lambda>c. c \<noteq> CHR '' '') rest"
    using assms(2) by (simp add: takeWhile_not_in)
  have s3: "py_split CHR '':'' (h @ CHR '':'' # takeWhile (\<lambda>c. c \<noteq> CHR '' '') rest)
      = h # py_split CHR '':'' (takeWhile (\<lambda>c. c \<noteq> CHR '' '') rest)"
    using assms(3) by (rule py_split_at)
  show ?thesis
    unfolding hour_token_def using s1 s2 tw s3 by simp
qed

lemma map_of_dict_set: "map_of (dict_set k v d) = (map_of d)(k \<mapsto> v)"
  by (induction d) (auto simp: fun_eq_iff)

lemma keys_dict_set:
  "map fst (dict_set k v d) = (if k \<in> set (map fst d) then map fst d else map fst d @ [k])"
  by (induction d) auto

lemma keys_bump:
  "map fst (bump h d) = (if h \<in> set (map fst d) then map fst d else map fst d @ [h])"
  by (auto simp: bump_def keys_dict_set split: option.splits)

lemma dict_get0_bump:
  "dict_get0 (bump h d) k = (if k = h then dict_get0 d h + 1 else dict_get0 d k)"
  by (auto simp: bump_def dict_get0_def map_of_dict_set split: option.splits)

lemma tally_snoc: "tally (hs @ [h]) d = bump h (tally hs d)"
  by (induction hs arbitrary: d) auto

lemma tally_keys_set: "set (map fst (tally hs [])) = set hs"
proof (induction hs rule: rev_induct)
  case Nil
  then show ?case by simp
next
  case (snoc h hs)
  then show ?case by (auto simp: tally_snoc keys_bump)
qed

lemma tally_count: "dict_get0 (tally hs []) k = count_list hs k"
proof (induction hs arbitrary: k rule: rev_induct)
  case Nil
  then show ?case by (simp add: dict_get0_def)
next
  case (snoc h hs)
  then show ?case by (simp add: tally_snoc dict_get0_bump)
qed

lemma tally_order:
  "map fst (tally hs []) = pre @ p # post \<Longrightarrow> set pre = set (takeWhile (\<lambda>x. x \<noteq> p) hs)"
proof (induction hs arbitrary: pre p post rule: rev_induct)
  case Nil
  then show ?case by simp
next
  case (snoc h hs)
  let ?ks = "map fst (tally hs [])"
  have ks: "set ?ks = set hs" by (rule tally_keys_set)
  show ?case
  proof (cases "h \<in> set hs")
    case True
    with snoc.prems ks have split: "?ks = pre @ p # post"
      by (simp add: tally_snoc keys_bump)
    then have "p \<in> set ?ks" by simp
    with ks have "p \<in> set hs" by simp
    then have "takeWhile (\<lambda>x. x \<noteq> p) (hs @ [h]) = takeWhile (\<lambda>x. x \<noteq> p) hs"
      by (simp add: takeWhile_append1)
    with snoc.IH [OF split] show ?thesis by simp
  next
    case False
    with snoc.prems ks have split: "?ks @ [h] = pre @ p # post"
      by (simp add: tally_snoc keys_bump)
    show ?thesis
    proof (cases post rule: rev_cases)
      case Nil
      with split have "pre = ?ks" "p = h" by simp_all
      moreover from False have "takeWhile (\<lambda>x. x \<noteq> h) (hs @ [h]) = hs"
        by (simp add: takeWhile_not_in)
      ultimately show ?thesis using ks by simp
    next
      case (snoc post' z)
      with split have split': "?ks = pre @ p # post'" by simp
      then have "p \<in> set ?ks" by simp
      with ks have "p \<in> set hs" by simp
      then have "takeWhile (\<lambda>x. x \<noteq> p) (hs @ [h]) = takeWhile (\<lambda>x. x \<noteq> p) hs"
        by (simp add: takeWhile_append1)
      with snoc.IH [OF split'] show ?thesis by simp
    qed
  qed
qed

lemma max_loop_first_max:
  "(max_loop g best xs = best \<and> (\<forall>x\<in>set xs. g x \<le> g best))
   \<or> (\<exists>pre post. xs = pre @ max_loop g best xs # post
         \<and> g best < g (max_loop g best xs)
         \<and> (\<forall>x\<in>set pre. g x < g (max_loop g best xs))
         \<and> (\<forall>x\<in>set post. g x \<le> g (max_loop g best xs)))"
proof (induction xs arbitrary: best)
  case Nil
  then show ?case by simp
next
  case (Cons y ys)
  show ?case
  proof (cases "g best < g y")
    case True
    from Cons [of y] show ?thesis
    proof
      assume a: "max_loop g y ys = y \<and> (\<forall>x\<in>set ys. g x \<le> g y)"
      with True have "y # ys = [] @ max_loop g best (y # ys) # ys
          \<and> g best < g (max_loop g best (y # ys))
          \<and> (\<forall>x\<in>set []. g x < g (max_loop g best (y # ys)))
          \<and> (\<forall>x\<in>set ys. g x \<le> g (max_loop g best (y # ys)))" by simp
      then show ?thesis by blast
    next
      assume "\<exists>pre post. ys = pre @ max_loop g y ys # post
         \<and> g y < g (max_loop g y ys)
         \<and> (\<forall>x\<in>set pre. g x < g (max_loop g y ys))
         \<and> (\<forall>x\<in>set post. g x \<le> g (max_loop g y ys))"
      then obtain pre post where b: "ys = pre @ max_loop g y ys # post"
         "g y < g (max_loop g y ys)"
         "\<forall>x\<in>set pre. g x < g (max_loop g y ys)"
         "\<forall>x\<in>set post. g x \<le> g (max_loop g y ys)" by blast
      with True have "y # ys = (y # pre) @ max_loop g best (y # ys) # post
          \<and> g best < g (max_loop g best (y # ys))
          \<and> (\<forall>x\<in>set (y # pre). g x < g (max_loop g best (y # ys)))
          \<and> (\<forall>x\<in>set post. g x \<le> g (max_loop g best (y # ys)))" by auto
      then show ?thesis by blast
    qed
  next
    case False
    from Cons [of best] show ?thesis
    proof
      assume "max_loop g best ys = best \<and> (\<forall>x\<in>set ys. g x \<le> g best)"
      with False show ?thesis by auto
    next
      assume "\<exists>pre post. ys = pre @ max_loop g best ys # post
         \<and> g best < g (max_loop g best ys)
         \<and> (\<forall>x\<in>set pre. g x < g (max_loop g best ys))
         \<and> (\<forall>x\<in>set post. g x \<le> g (max_loop g best ys))"
      then obtain pre post where b: "ys = pre @ max_loop g best ys # post"
         "g best < g (max_loop g best ys)"
         "\<forall>x\<in>set pre. g x < g (max_loop g best ys)"
         "\<forall>x\<in>set post. g x \<le> g (max_loop g best ys)" by blast
      with False have "y # ys = (y # pre) @ max_loop g best (y # ys) # post
          \<and> g best < g (max_loop g best (y # ys))
          \<and> (\<forall>x\<in>set (y # pre). g x < g (max_loop g best (y # ys)))
          \<and> (\<forall>x\<in>set post. g x \<le> g (max_loop g best (y # ys)))" by auto
      then show ?thesis by blast
    qed
  qed
qed

text \<open>The first maximum of a non-empty key list.\<close>

lemma max_loop_split:
  "\<exists>pre post. k # ks = pre @ max_loop g k ks # post
      \<and> (\<forall>x\<in>set pre. g x < g (max_loop g k ks))
      \<and> (\<forall>x\<in>set post. g x \<le> g (max_loop g k ks))"
  using max_loop_first_max [of g k ks]
proof
  assume a: "max_loop g k ks = k \<and> (\<forall>x\<in>set ks. g x \<le> g k)"
  then have "k # ks = [] @ max_loop g k ks # ks
      \<and> (\<forall>x\<in>set []. g x < g (max_loop g k ks))
      \<and> (\<forall>x\<in>set ks. g x \<le> g (max_loop g k ks))" by simp
  then show ?thesis by blast
next
  assume "\<exists>pre post. ks = pre @ max_loop g k ks # post
         \<and> g k < g (max_loop g k ks)
         \<and> (\<forall>x\<in>set pre. g x < g (max_loop g k ks))
         \<and> (\<forall>x\<in>set post. g x \<le> g (max_loop g k ks))"
  then obtain pre post where b: "ks = pre @ max_loop g k ks # post"
         "g k < g (max_loop g k ks)"
         "\<forall>x\<in>set pre. g x < g (max_loop g k ks)"
         "\<forall>x\<in>set post. g x \<le> g (max_loop g k ks)" by blast
  then have "k # ks = (k # pre) @ max_loop g k ks # post
      \<and> (\<forall>x\<in>set (k # pre). g x < g (max_loop g k ks))
      \<and> (\<forall>x\<in>set post. g x \<le> g (max_loop g k ks))" by auto
  then show ?thesis by blast
qed

lemma peak_of_tally:
  assumes "py_max_key (tally hs []) = Inr p"
  shows "p \<in> set hs
       \<and> (\<forall>h\<in>set hs. count_list hs h \<le> count_list hs p)
       \<and> (\<forall>h\<in>set (takeWhile (\<lambda>x. x \<noteq> p) hs). count_list hs h < count_list hs p)"
proof -
  let ?d = "tally hs []"
  let ?g = "dict_get0 ?d"
  from assms obtain k ks where keys: "map fst ?d = k # ks" and p: "p = max_loop ?g k ks"
    by (auto simp: py_max_key_def split: list.splits)
  from max_loop_split [of k ks ?g] p obtain pre post where
    sp: "k # ks = pre @ p # post" and lt: "\<forall>x\<in>set pre. ?g x < ?g p"
    and le: "\<forall>x\<in>set post. ?g x \<le> ?g p" by blast
  have g: "\<And>x. ?g x = count_list hs x" by (rule tally_count)
  have ks: "set (map fst ?d) = set hs" by (rule tally_keys_set)
  from keys sp have split: "map fst ?d = pre @ p # post" by simp
  then have pre: "set pre = set (takeWhile (\<lambda>x. x \<noteq> p) hs)" by (rule tally_order)
  from split ks have mem: "p \<in> set hs" by auto
  have all: "\<forall>h\<in>set hs. count_list hs h \<le> count_list hs p"
  proof
    fix h assume "h \<in> set hs"
    with ks split have "h \<in> set pre \<or> h = p \<or> h \<in> set post" by auto
    with lt le g show "count_list hs h \<le> count_list hs p" by (auto simp: less_imp_le)
  qed
  from pre lt g have "\<forall>h\<in>set (takeWhile (\<lambda>x. x \<noteq> p) hs). count_list hs h < count_list hs p"
    by simp
  with mem all show ?thesis by simp
qed

lemma agg_step_time_d:
  "agg_step row st = Inr st1 \<Longrightarrow> time_d st1 = tally (hour_tokens [row]) (time_d st)"
  by (auto simp: agg_step_def bump_def Let_def split: option.splits sum.splits)

lemma hour_tokens_Cons: "hour_tokens (row # rows) = hour_tokens [row] @ hour_tokens rows"
  by (simp split: sum.splits)

lemma tally_append: "tally (a @ b) d = tally b (tally a d)"
  by (induction a arbitrary: d) auto

lemma agg_loop_time_d:
  "agg_loop data st = Inr st' \<Longrightarrow> time_d st' = tally (hour_tokens data) (time_d st)"
proof (induction data arbitrary: st)
  case Nil
  then show ?case by simp
next
  case (Cons row rows)
  from Cons.prems obtain st1 where s1: "agg_step row st = Inr st1" and l: "agg_loop rows st1 = Inr st'"
    by (auto split: sum.splits)
  from Cons.IH [OF l] agg_step_time_d [OF s1]
  have "time_d st' = tally (hour_tokens rows) (tally (hour_tokens [row]) (time_d st))" by simp
  then show ?case using hour_tokens_Cons [of row rows] by (simp only: tally_append)
qed

lemma agg_step_tokens:
  "agg_step row st = Inr st1 \<Longrightarrow>
     user_id row = None \<or> (\<exists>h. hour_token (created_at row) = Inr h)"
  by (auto simp: agg_step_def Let_def split: option.splits sum.splits)

lemma agg_loop_tokens:
  "agg_loop data st = Inr st' \<Longrightarrow>
     map Inr (hour_tokens data)
       = map (\<lambda>r. hour_token (created_at r)) (filter (\<lambda>r. user_id r \<noteq> None) data)"
proof (induction data arbitrary: st)
  case Nil
  then show ?case by simp
next
  case (Cons row rows)
  from Cons.prems obtain st1 where s1: "agg_step row st = Inr st1"
    and l: "agg_loop rows st1 = Inr st'"
    by (auto split: sum.splits)
  note ih = Cons.IH [OF l]
  from agg_step_tokens [OF s1] show ?case
  proof
    assume "user_id row = None"
    with ih show ?thesis by simp
  next
    assume "\<exists>h. hour_token (created_at row) = Inr h"
    then obtain h where "hour_token (created_at row) = Inr h" ..
    with ih show ?thesis by simp
  qed
qed

lemma agg_step_total:
  "user_id row \<noteq> None \<longrightarrow> (\<exists>h. hour_token (created_at row) = Inr h) \<Longrightarrow> \<exists>st1. agg_step row st = Inr st1"
  by (auto simp: agg_step_def Let_def split: option.splits sum.splits)

lemma agg_loop_total:
  "\<forall>row\<in>set data. user_id row \<noteq> None \<longrightarrow> (\<exists>h. hour_token (created_at row) = Inr h)
     \<Longrightarrow> \<exists>st'. agg_loop data st = Inr st'"
proof (induction data arbitrary: st)
  case Nil
  then show ?case by simp
next
  case (Cons row rows)
  then have "user_id row \<noteq> None \<longrightarrow> (\<exists>h. hour_token (created_at row) = Inr h)" by simp
  from agg_step_total [OF this] obtain st1 where s1: "agg_step row st = Inr st1" ..
  from Cons.prems have "\<forall>row\<in>set rows. user_id row \<noteq> None \<longrightarrow> (\<exists>h. hour_token (created_at row) = Inr h)" by simp
  from Cons.IH [OF this, of st1] s1 show ?case by simp
qed

lemma dict_set_not_Nil: "dict_set k v d \<noteq> []"
  by (cases d) auto

lemma agg_step_grows:
  "agg_step row st = Inr st1 \<Longrightarrow>
     cnt_submits st \<le> cnt_submits st1
   \<and> (users_acts st \<noteq> [] \<longrightarrow> users_acts st1 \<noteq> [])
   \<and> (time_d st \<noteq> [] \<longrightarrow> time_d st1 \<noteq> [])
   \<and> (user_id row \<noteq> None \<longrightarrow> users_acts st1 \<noteq> [] \<and> time_d st1 \<noteq> [])
   \<and> (user_id row \<noteq> None \<and> is_correct row \<noteq> PNone \<longrightarrow> 0 < cnt_submits st1)"
  by (auto simp: agg_step_def Let_def dict_set_not_Nil split: option.splits sum.splits)

lemma agg_loop_grows:
  "agg_loop data st = Inr st' \<Longrightarrow>
     cnt_submits st \<le> cnt_submits st'
   \<and> (users_acts st \<noteq> [] \<longrightarrow> users_acts st' \<noteq> [])
   \<and> (time_d st \<noteq> [] \<longrightarrow> time_d st' \<noteq> [])
   \<and> ((\<exists>row\<in>set data. user_id row \<noteq> None) \<longrightarrow> users_acts st' \<noteq> [] \<and> time_d st' \<noteq> [])
   \<and> ((\<exists>row\<in>set data. user_id row \<noteq> None \<and> is_correct row \<noteq> PNone) \<longrightarrow> 0 < cnt_submits st')"
proof (induction data arbitrary: st)
  case Nil
  then show ?case by simp
next
  case (Cons row rows)
  from Cons.prems obtain st1 where s1: "agg_step row st = Inr st1" and l: "agg_loop rows st1 = Inr st'"
    by (auto split: sum.splits)
  from agg_step_grows [OF s1] Cons.IH [OF l] show ?case
    by (auto simp: less_le_trans)
qed

lemma calc_total:
  assumes h: "\<forall>row\<in>set data. user_id row \<noteq> None \<longrightarrow> (\<exists>h. hour_token (created_at row) = Inr h)"
    and s: "\<exists>row\<in>set data. user_id row \<noteq> None \<and> is_correct row \<noteq> PNone"
  shows "\<exists>r. calc_for_gsheets data = Some r"
proof -
  from agg_loop_total [OF h, of agg_init] obtain st where l: "agg_loop data agg_init = Inr st" ..
  from s have i: "\<exists>row\<in>set data. user_id row \<noteq> None" by blast
  from agg_loop_grows [OF l] s i have
    sub: "0 < cnt_submits st" and u: "users_acts st \<noteq> []" and t: "time_d st \<noteq> []" by blast+
  from sub obtain pct where p: "percent (cnt_success st) (cnt_submits st) = Inr pct"
    by (auto simp: percent_def)
  from t obtain mh where m: "py_max_key (time_d st) = Inr mh"
    by (cases "time_d st") (auto simp: py_max_key_def)
  from u have mean: "\<And>f. \<exists>a. py_mean (map f (map (\<lambda>ua. user_summary (snd ua)) (users_acts st))) = Inr a"
    by (simp add: py_mean_def)
  from mean [of "\<lambda>v. fst v"] obtain a1 where a1: "py_mean (map (\<lambda>v. fst v) (map (\<lambda>ua. user_summary (snd ua)) (users_acts st))) = Inr a1" ..
  from mean [of "\<lambda>v. fst (snd v)"] obtain a2 where a2: "py_mean (map (\<lambda>v. fst (snd v)) (map (\<lambda>ua. user_summary (snd ua)) (users_acts st))) = Inr a2" ..
  from mean [of "\<lambda>v. fst (snd (snd v))"] obtain a3 where a3: "py_mean (map (\<lambda>v. fst (snd (snd v))) (map (\<lambda>ua. user_summary (snd ua)) (users_acts st))) = Inr a3" ..
  from mean [of "\<lambda>v. snd (snd (snd v))"] obtain a4 where a4: "py_mean (map (\<lambda>v. snd (snd (snd v))) (map (\<lambda>ua. user_summary (snd ua)) (users_acts st))) = Inr a4" ..
  from l p m a1 a2 a3 a4 show ?thesis
    by (simp add: calc_for_gsheets_def calc_body_def Let_def)
qed

lemma calc_peak:
  assumes "calc_for_gsheets data = Some r"
  shows "py_max_key (tally (hour_tokens data) []) = Inr (max_activity_hour r)
       \<and> map Inr (hour_tokens data)
           = map (\<lambda>row. hour_token (created_at row)) (filter (\<lambda>row. user_id row \<noteq> None) data)"
proof -
  from assms obtain st where l: "agg_loop data agg_init = Inr st"
    by (auto simp: calc_for_gsheets_def calc_body_def split: sum.splits)
  from assms l have m: "py_max_key (time_d st) = Inr (max_activity_hour r)"
    by (auto simp: calc_for_gsheets_def calc_body_def Let_def split: sum.splits)
  from agg_loop_time_d [OF l] have "time_d st = tally (hour_tokens data) []"
    by (simp add: agg_init_def)
  with m agg_loop_tokens [OF l] show ?thesis by simp
qed

lemma agg_loop_all_tokens:
  "agg_loop data st = Inr st' \<Longrightarrow>
     \<forall>row\<in>set data. user_id row \<noteq> None \<longrightarrow> (\<exists>h. hour_token (created_at row) = Inr h)"
proof (induction data arbitrary: st)
  case Nil
  then show ?case by simp
next
  case (Cons row rows)
  from Cons.prems obtain st1 where s1: "agg_step row st = Inr st1"
    and l: "agg_loop rows st1 = Inr st'"
    by (auto split: sum.splits)
  from agg_step_tokens [OF s1] Cons.IH [OF l] show ?case by auto
qed

lemma agg_step_submits:
  "agg_step row st = Inr st1 \<Longrightarrow>
     cnt_submits st1 = cnt_submits st
       + (if user_id row \<noteq> None \<and> is_correct row \<noteq> PNone then 1 else 0)"
  by (auto simp: agg_step_def Let_def split: option.splits sum.splits)

lemma agg_loop_submits:
  "agg_loop data st = Inr st' \<Longrightarrow>
     cnt_submits st' = cnt_submits st
       + length (filter (\<lambda>row. user_id row \<noteq> None \<and> is_correct row \<noteq> PNone) data)"
proof (induction data arbitrary: st)
  case Nil
  then show ?case by simp
next
  case (Cons row rows)
  from Cons.prems obtain st1 where s1: "agg_step row st = Inr st1"
    and l: "agg_loop rows st1 = Inr st'"
    by (auto split: sum.splits)
  from agg_step_submits [OF s1] Cons.IH [OF l] show ?case by simp
qed

lemma calc_report_needs:
  assumes "calc_for_gsheets data = Some r"
  shows "(\<forall>row\<in>set data. user_id row \<noteq> None \<longrightarrow> (\<exists>h. hour_token (created_at row) = Inr h))
       \<and> (\<exists>row\<in>set data. user_id row \<noteq> None \<and> is_correct row \<noteq> PNone)"
proof -
  from assms obtain st where l: "agg_loop data agg_init = Inr st"
    by (auto simp: calc_for_gsheets_def calc_body_def split: sum.splits)
  from assms l have "cnt_submits st \<noteq> 0"
    by (auto simp: calc_for_gsheets_def calc_body_def percent_def Let_def split: sum.splits if_splits)
  with agg_loop_submits [OF l]
  have "filter (\<lambda>row. user_id row \<noteq> None \<and> is_correct row \<noteq> PNone) data \<noteq> []"
    by (auto simp: agg_init_def)
  then have "\<exists>row\<in>set data. user_id row \<noteq> None \<and> is_correct row \<noteq> PNone"
    by (auto simp: filter_empty_conv)
  with agg_loop_all_tokens [OF l] show ?thesis by simp
qed

text \<open>
  Claim C8, as the code has it. The hour token of a timestamp is the text between
  its first space and the first colon after it (provided no second space comes
  before that colon). \<^verbatim>\<open>calc_for_gsheets\<close> returns a report exactly when every
  identified-user record has an hour token and at least one identified-user record
  is a submit; a batch of identified-user records without a submit gets no report,
  and so no peak hour. Whenever a report is returned, the tallied tokens are those
  of all the identified-user records, in order, and the reported peak hour is one of
  them, no hour has a greater tally, and every hour met before the first occurrence
  of the peak hour has a strictly smaller tally: the peak is the first-encountered
  maximum.
\<close>

theorem peak_activity_hour:
  "(CHR '' '' \<notin> set d \<and> CHR '' '' \<notin> set h \<and> CHR '':'' \<notin> set h
      \<longrightarrow> hour_token (d @ CHR '' '' # h @ CHR '':'' # rest) = Inr h)
 \<and> ((\<exists>r. calc_for_gsheets data = Some r) \<longleftrightarrow>
      (\<forall>row\<in>set data. user_id row \<noteq> None \<longrightarrow> (\<exists>h. hour_token (created_at row) = Inr h))
      \<and> (\<exists>row\<in>set data. user_id row \<noteq> None \<and> is_correct row \<noteq> PNone))
 \<and> (\<forall>r. calc_for_gsheets data = Some r \<longrightarrow>
        map Inr (hour_tokens data)
          = map (\<lambda>row. hour_token (created_at row)) (filter (\<lambda>row. user_id row \<noteq> None) data)
      \<and> max_activity_hour r \<in> set (hour_tokens data)
      \<and> (\<forall>h\<in>set (hour_tokens data).
            count_list (hour_tokens data) h \<le> count_list (hour_tokens data) (max_activity_hour r))
      \<and> (\<forall>h\<in>set (takeWhile (\<lambda>x. x \<noteq> max_activity_hour r) (hour_tokens data)).
            count_list (hour_tokens data) h < count_list (hour_tokens data) (max_activity_hour r)))"
proof (intro conjI allI impI iffI)
  assume "CHR '' '' \<notin> set d \<and> CHR '' '' \<notin> set h \<and> CHR '':'' \<notin> set h"
  then show "hour_token (d @ CHR '' '' # h @ CHR '':'' # rest) = Inr h"
    by (simp add: hour_token_shape)
next
  assume "\<exists>r. calc_for_gsheets data = Some r"
  then obtain r where r: "calc_for_gsheets data = Some r" ..
  from calc_report_needs [OF r]
  show "\<forall>row\<in>set data. user_id row \<noteq> None \<longrightarrow> (\<exists>h. hour_token (created_at row) = Inr h)"
    by simp
  from calc_report_needs [OF r]
  show "\<exists>row\<in>set data. user_id row \<noteq> None \<and> is_correct row \<noteq> PNone" by simp
next
  assume "(\<forall>row\<in>set data. user_id row \<noteq> None \<longrightarrow> (\<exists>h. hour_token (created_at row) = Inr h))
      \<and> (\<exists>row\<in>set data. user_id row \<noteq> None \<and> is_correct row \<noteq> PNone)"
  then show "\<exists>r. calc_for_gsheets data = Some r" using calc_total [of data] by blast
next
  fix r assume a: "calc_for_gsheets data = Some r"
  from calc_peak [OF a] show "map Inr (hour_tokens data)
          = map (\<lambda>row. hour_token (created_at row)) (filter (\<lambda>row. user_id row \<noteq> None) data)"
    by simp
  from calc_peak [OF a] have p: "py_max_key (tally (hour_tokens data) []) = Inr (max_activity_hour r)"
    by simp
  from peak_of_tally [OF p] show "max_activity_hour r \<in> set (hour_tokens data)" by simp
  from peak_of_tally [OF p] show "\<forall>h\<in>set (hour_tokens data).
            count_list (hour_tokens data) h \<le> count_list (hour_tokens data) (max_activity_hour r)"
    by simp
  from peak_of_tally [OF p] show "\<forall>h\<in>set (takeWhile (\<lambda>x. x \<noteq> max_activity_hour r) (hour_tokens data)).
            count_list (hour_tokens data) h < count_list (hour_tokens data) (max_activity_hour r)"
    by simp
qed

text \<open>
  The claim as the spec states it fails: the batch holds one identified-user
  record, a run attempt with a well-formed timestamp, and \<^verbatim>\<open>calc_for_gsheets\<close>
  divides by zero submits before it looks for the peak hour, so it returns \<^verbatim>\<open>None\<close>
  and reports no peak hour.
\<close>

theorem run_attempt_only_no_peak_hour:
  "user_id (attempt ''u1'' PNone ''2024-05-01 10:00:00'') = Some ''u1''
   \<and> hour_token (created_at (attempt ''u1'' PNone ''2024-05-01 10:00:00'')) = Inr ''10''
   \<and> calc_for_gsheets [attempt ''u1'' PNone ''2024-05-01 10:00:00''] = None"
  by (simp add: attempt_def agg_eval)

lemma tie_eval: "calc_for_gsheets data_tie
   = Some \<lparr> all_attempts = 2, run_attempts = 0, submits = 2, successfull_submits = 1,
            percent_of_successfull_submits = 50, unique_users = 2,
            max_activity_hour = ''11'', avg_attempts_per_user = 1,
            avg_run_attempts_per_user = 0, avg_submits_per_user = 1,
            avg_successfull_submits_per_user = 1 / 2 \<rparr>"
  by (simp add: data_tie_def attempt_def agg_eval)

lemma tie_tokens: "hour_tokens data_tie = [''11'', ''10'']"
  by (simp add: data_tie_def attempt_def hour_token_def)

theorem peak_activity_hour_witness:
  "CHR '' '' \<notin> set ''2024-05-01'' \<and> CHR '' '' \<notin> set ''11'' \<and> CHR '':'' \<notin> set ''11''
 \<and> hour_token (''2024-05-01'' @ CHR '' '' # ''11'' @ CHR '':'' # ''00:00'') = Inr ''11''
 \<and> (\<exists>row\<in>set data_tie. user_id row \<noteq> None \<and> is_correct row \<noteq> PNone)
 \<and> (\<exists>r. calc_for_gsheets data_tie = Some r \<and> max_activity_hour r = ''11''
        \<and> max_activity_hour r \<in> set (hour_tokens data_tie)
        \<and> count_list (hour_tokens data_tie) ''10''
            \<le> count_list (hour_tokens data_tie) (max_activity_hour r))
 \<and> hour_tokens data_tie = [''11'', ''10'']
 \<and> count_list (hour_tokens data_tie) ''10'' = count_list (hour_tokens data_tie) ''11''"
proof -
  have sh: "CHR '' '' \<notin> set ''2024-05-01'' \<and> CHR '' '' \<notin> set ''11'' \<and> CHR '':'' \<notin> set ''11''"
    by simp
  have ex: "\<exists>row\<in>set data_tie. user_id row \<noteq> None \<and> is_correct row \<noteq> PNone"
    by (simp add: data_tie_def attempt_def)
  note inst = peak_activity_hour [of "''2024-05-01''" "''11''" "''00:00''" data_tie]
  from inst sh have tok: "hour_token (''2024-05-01'' @ CHR '' '' # ''11'' @ CHR '':'' # ''00:00'') = Inr ''11''"
    by blast
  let ?r = "\<lparr> all_attempts = 2, run_attempts = 0, submits = 2, successfull_submits = 1,
            percent_of_successfull_submits = 50, unique_users = 2,
            max_activity_hour = ''11'', avg_attempts_per_user = 1,
            avg_run_attempts_per_user = 0, avg_submits_per_user = 1,
            avg_successfull_submits_per_user = 1 / 2 \<rparr>"
  have ev: "calc_for_gsheets data_tie = Some ?r" by (rule tie_eval)
  from inst ev have
    "max_activity_hour ?r \<in> set (hour_tokens data_tie)
      \<and> (\<forall>h\<in>set (hour_tokens data_tie).
            count_list (hour_tokens data_tie) h \<le> count_list (hour_tokens data_tie) (max_activity_hour ?r))"
    by blast
  then have "max_activity_hour ?r \<in> set (hour_tokens data_tie)
      \<and> count_list (hour_tokens data_tie) ''10''
            \<le> count_list (hour_tokens data_tie) (max_activity_hour ?r)"
    by (simp add: tie_tokens)
  with ev have "\<exists>r. calc_for_gsheets data_tie = Some r \<and> max_activity_hour r = ''11''
        \<and> max_activity_hour r \<in> set (hour_tokens data_tie)
        \<and> count_list (hour_tokens data_tie) ''10''
            \<le> count_list (hour_tokens data_tie) (max_activity_hour r)"
    by simp
  with sh tok ex show ?thesis by (simp add: tie_tokens)
qed

lemma agg_loop_unidentified:
  "\<forall>row\<in>set data. user_id row = None \<Longrightarrow> agg_loop data st = Inr st"
  by (induction data) (auto simp: agg_step_def)

text \<open>
  Claim C5, as the code has it. When no record of the batch has a user (the empty
  batch included) the loop leaves every total at zero and the user table empty; the
  quotient for the percentage then divides by zero submits, \<^verbatim>\<open>ZeroDivisionError\<close> is
  raised, the handler \<^verbatim>\<open>except Exception\<close> of the function catches and logs it, and
  the function returns \<^verbatim>\<open>None\<close>: nothing is raised to the caller, and no report is
  returned.
\<close>

theorem calc_no_identified_users:
  assumes "\<forall>row\<in>set data. user_id row = None"
  shows "agg_loop data agg_init = Inr agg_init
       \<and> cnt_all agg_init = 0 \<and> cnt_run agg_init = 0 \<and> cnt_submits agg_init = 0
       \<and> cnt_success agg_init = 0 \<and> users_acts agg_init = []
       \<and> percent (cnt_success agg_init) (cnt_submits agg_init) = Inl ZeroDivisionError
       \<and> calc_body data = Inl ZeroDivisionError
       \<and> calc_for_gsheets data = None"
proof -
  from assms have l: "agg_loop data agg_init = Inr agg_init" by (rule agg_loop_unidentified)
  have z: "cnt_submits agg_init = 0" by (simp add: agg_init_def)
  then have p: "percent (cnt_success agg_init) (cnt_submits agg_init) = Inl ZeroDivisionError"
    by (simp add: percent_def)
  with l have b: "calc_body data = Inl ZeroDivisionError" by (simp add: calc_body_def)
  then have "calc_for_gsheets data = None" by (simp add: calc_for_gsheets_def)
  with l p b show ?thesis by (simp add: agg_init_def)
qed

text \<open>
  The claim as the spec states it fails: on the empty batch there is no report with
  zero totals, the function returns \<^verbatim>\<open>None\<close>.
\<close>

theorem calc_empty_batch_no_report: "calc_for_gsheets [] = None"
  by (simp add: calc_for_gsheets_def calc_body_def percent_def agg_init_def)


theorem calc_no_identified_users_witness:
  "user_id rec_anonymous = None
   \<and> calc_body [rec_anonymous] = Inl ZeroDivisionError
   \<and> calc_for_gsheets [rec_anonymous] = None
   \<and> calc_body [] = Inl ZeroDivisionError"
proof -
  have a: "\<forall>row\<in>set [rec_anonymous]. user_id row = None" by (simp add: rec_anonymous_def)
  have b: "\<forall>row\<in>set ([] :: canonical list). user_id row = None" by simp
  from calc_no_identified_users [OF a] calc_no_identified_users [OF b] show ?thesis by (simp add: rec_anonymous_def)
qed

end
